theory Spec2Isabelle
  imports Complex_Main
begin

section \<open>Data model of the Poisson driver\<close>

text \<open>
  The driver \<^verbatim>\<open>main_cg_poisson.cpp\<close> sets up the 7-point Laplace stencil on an
  \<open>nx \<times> ny \<times> nz\<close> grid over the unit cube, fills the right-hand side and calls the
  CG solver. C \<^verbatim>\<open>int\<close> values are modelled as \<open>int\<close>: the extents come from \<open>atoi\<close>,
  which returns values of a 32-bit \<^verbatim>\<open>int\<close> only, and the only integer arithmetic of the
  driver is \<open>n - 1\<close> on extents and loop counters running from \<open>0\<close> up to an extent. These
  stay inside the machine range, with one exception: for the least \<^verbatim>\<open>int\<close> as extent
  the difference \<open>n - 1\<close> of line 83 overflows, which is undefined behaviour in C; the
  model goes on with the integer difference, which enters a spacing that is never
  used, since \<^verbatim>\<open>laplace3d_stencil\<close> throws for that extent.
  C \<^verbatim>\<open>double\<close> values are modelled as \<open>real\<close>, so every arithmetic expression of the
  source denotes its exact value (no rounding, no infinities); \<^verbatim>\<open>M_PI\<close> is \<open>pi\<close>. The
  statements proved on this reading repeat the expressions of the source or compare
  signs; where rounding decides, the expressions are read in binary64 below.
\<close>

datatype error =
    Runtime_error string
  | Std_exception string
  | Out_of_bounds int

text \<open>
  The fields of \<^verbatim>\<open>decomp3d\<close> that the driver reads. The class itself lives in
  \<^verbatim>\<open>operations.hpp\<close>; an object of it is an input of the model.
\<close>

record decomp3d =
  npx :: int
  npy :: int
  npz :: int
  nx_loc :: int
  ny_loc :: int
  nz_loc :: int

text \<open>
  \<^verbatim>\<open>stencil3d\<close>: the fields \<^verbatim>\<open>nx, ny, nz\<close> (here \<open>stencil_nx\<close>, \<open>stencil_ny\<close>,
  \<open>stencil_nz\<close>, since a record field is a global name) and the seven coefficients are
  what \<^verbatim>\<open>laplace3d_stencil\<close> assigns. The member \<^verbatim>\<open>DD\<close> is assigned later by
  \<^verbatim>\<open>main\<close> (\<^verbatim>\<open>L.DD=DD\<close>), which is the record extension \<open>stencil3d\<close>.
\<close>

record stencil3d_coeffs =
  stencil_nx :: int
  stencil_ny :: int
  stencil_nz :: int
  value_c :: real
  value_n :: real
  value_e :: real
  value_s :: real
  value_w :: real
  value_t :: real
  value_b :: real

record stencil3d = stencil3d_coeffs +
  DD :: decomp3d

section \<open>Forcing term, boundary value and stencil\<close>

definition f :: "real \<Rightarrow> real \<Rightarrow> real \<Rightarrow> real" where
  "f x y z = z * sin (2 * pi * x) * sin (pi * y) + 8 * z * z * z"

definition g_0 :: "real \<Rightarrow> real \<Rightarrow> real" where
  "g_0 x y = x * (1 - x) * y * (1 - y)"

definition laplace3d_stencil :: "int \<Rightarrow> int \<Rightarrow> int \<Rightarrow> error + stencil3d_coeffs" where
  "laplace3d_stencil nx ny nz =
    (if nx \<le> 2 \<or> ny \<le> 2 \<or> nz \<le> 2
     then Inl (Runtime_error
       ''need at least two grid points in each direction to implement boundary conditions.'')
     else
       let dx = 1 / real_of_int (nx - 1);
           dy = 1 / real_of_int (ny - 1);
           dz = 1 / real_of_int (nz - 1)
       in Inr \<lparr> stencil_nx = nx, stencil_ny = ny, stencil_nz = nz,
                value_c = 2 / (dx * dx) + 2 / (dy * dy) + 2 / (dz * dz),
                value_n = - 1 / (dy * dy),
                value_e = - 1 / (dx * dx),
                value_s = - 1 / (dy * dy),
                value_w = - 1 / (dx * dx),
                value_t = - 1 / (dz * dz),
                value_b = - 1 / (dz * dz) \<rparr>)"

section \<open>Arrays and loops\<close>

text \<open>
  A \<^verbatim>\<open>double*\<close> array is a list of reals. Reading or writing outside the allocation
  is undefined behaviour in C++; the model stops there with \<open>Out_of_bounds\<close>.
\<close>

definition load :: "real list \<Rightarrow> int \<Rightarrow> error + real" where
  "load b idx =
    (if 0 \<le> idx \<and> idx < int (length b) then Inr (b ! nat idx) else Inl (Out_of_bounds idx))"

definition store :: "real list \<Rightarrow> int \<Rightarrow> real \<Rightarrow> error + real list" where
  "store b idx v =
    (if 0 \<le> idx \<and> idx < int (length b) then Inr (b[nat idx := v]) else Inl (Out_of_bounds idx))"

text \<open>
  \<^verbatim>\<open>for (int i=lo; i<n; i++) body\<close>, threading the state and stopping at the first
  error.
\<close>

function for_loop :: "int \<Rightarrow> int \<Rightarrow> (int \<Rightarrow> 's \<Rightarrow> error + 's) \<Rightarrow> 's \<Rightarrow> error + 's" where
  "for_loop i n body s =
    (if i < n
     then (case body i s of Inl e \<Rightarrow> Inl e | Inr s' \<Rightarrow> for_loop (i + 1) n body s')
     else Inr s)"
  by pat_completeness auto
termination
  by (relation "measure (\<lambda>(i, n, body, s). nat (n - i))") auto

declare for_loop.simps [simp del]

text \<open>
  \<^verbatim>\<open>new double[n]\<close> followed by \<^verbatim>\<open>init(n, v, 0.0)\<close>: the fresh array has
  indeterminate contents, every entry of which \<open>init\<close> overwrites before it is read.

  Modelled from the spec: \<^verbatim>\<open>init\<close> of the vector operations (\<^verbatim>\<open>operations.hpp\<close> is
  not part of the sources) "sets every entry to scalar".
\<close>

definition new_double :: "int \<Rightarrow> real list" where
  "new_double n = replicate (nat n) 0"

definition init :: "int \<Rightarrow> real list \<Rightarrow> real \<Rightarrow> real list" where
  "init n v a = replicate (nat n) a @ drop (nat n) v"

text \<open>
  Modelled from the spec: the member \<^verbatim>\<open>index_c\<close> of \<^verbatim>\<open>stencil3d\<close>
  (\<^verbatim>\<open>operations.hpp\<close> is not part of the sources): "local \<open>(i,j,k)\<close> \<rightarrow> linear index
  \<open>k*nx_loc*ny_loc + j*nx_loc + i\<close> (row-major, x fastest)", the local extents being those
  of the decomposition the stencil carries. The products and sums are those of the
  integers.
\<close>

definition index_c :: "stencil3d \<Rightarrow> int \<Rightarrow> int \<Rightarrow> int \<Rightarrow> int" where
  "index_c L i j k = k * nx_loc (DD L) * ny_loc (DD L) + j * nx_loc (DD L) + i"

section \<open>Right-hand side\<close>

text \<open>
  Lines 106--119 of \<^verbatim>\<open>main\<close>: the triple loop that writes \<open>f(x,y,z)\<close> into \<open>b\<close>. The
  iterations of the OpenMP-parallel outer loop write to the entries of their own \<open>k\<close>
  and read nothing they write, so they are run here in index order.
\<close>

definition rhs_forcing ::
  "stencil3d \<Rightarrow> int \<Rightarrow> int \<Rightarrow> int \<Rightarrow> real \<Rightarrow> real \<Rightarrow> real \<Rightarrow> real list \<Rightarrow> error + real list" where
  "rhs_forcing L nx ny nz dx dy dz b =
    for_loop 0 nz (\<lambda>k b.
      let z = real_of_int k * dz in
      for_loop 0 ny (\<lambda>j b.
        let y = real_of_int j * dy in
        for_loop 0 nx (\<lambda>i b.
          let x = real_of_int i * dx;
              idx = index_c L i j k
          in store b idx (f x y z)) b) b) b"

text \<open>
  Lines 121--125 of \<^verbatim>\<open>main\<close>: the Dirichlet values at \<open>z = 0\<close> are folded into \<open>b\<close>
  (\<^verbatim>\<open>b[L.index_c(i,j,0)] -= L.value_b*g_0(i*dx, j*dy)\<close>).
\<close>

definition rhs_dirichlet ::
  "stencil3d \<Rightarrow> int \<Rightarrow> int \<Rightarrow> real \<Rightarrow> real \<Rightarrow> real list \<Rightarrow> error + real list" where
  "rhs_dirichlet L nx ny dx dy b =
    for_loop 0 ny (\<lambda>j b.
      for_loop 0 nx (\<lambda>i b.
        case load b (index_c L i j 0) of
          Inl e \<Rightarrow> Inl e
        | Inr v \<Rightarrow> store b (index_c L i j 0)
                    (v - value_b L * g_0 (real_of_int i * dx) (real_of_int j * dy))) b) b"

section \<open>The driver\<close>

text \<open>
  \<^verbatim>\<open>atoi\<close> of the C library, as glibc defines it on a platform with a 64-bit
  \<^verbatim>\<open>long\<close>: the result of \<^verbatim>\<open>strtol(s, NULL, 10)\<close> converted to \<^verbatim>\<open>int\<close>.
  \<^verbatim>\<open>strtol\<close> skips leading white space, reads an optional sign and the decimal digits
  up to the first other character, and saturates at \<^verbatim>\<open>LONG_MIN\<close> and \<^verbatim>\<open>LONG_MAX\<close>;
  the conversion to the 32-bit \<^verbatim>\<open>int\<close> keeps the low 32 bits in two's complement. So
  \<open>atoi\<close> of the text \<open>2147483648\<close> is \<open>-2147483648\<close>.
\<close>

definition isspace :: "char \<Rightarrow> bool" where
  "isspace c = (c \<in> set [CHR '' '', CHR 0x09, CHR 0x0A, CHR 0x0B, CHR 0x0C, CHR 0x0D])"

definition isdigit :: "char \<Rightarrow> bool" where
  "isdigit c = (48 \<le> (of_char c :: nat) \<and> (of_char c :: nat) \<le> 57)"

fun atoi_digits :: "int \<Rightarrow> string \<Rightarrow> int" where
  "atoi_digits acc [] = acc"
| "atoi_digits acc (c # cs) =
    (if isdigit c then atoi_digits (10 * acc + (int (of_char c) - 48)) cs else acc)"

definition number_written :: "string \<Rightarrow> int" where
  "number_written s =
    (case dropWhile isspace s of
       [] \<Rightarrow> 0
     | c # cs \<Rightarrow>
         if c = CHR ''-'' then - atoi_digits 0 cs
         else if c = CHR ''+'' then atoi_digits 0 cs
         else atoi_digits 0 (c # cs))"

definition strtol :: "string \<Rightarrow> int" where
  "strtol s = max (- 9223372036854775808) (min 9223372036854775807 (number_written s))"

definition int_of_long :: "int \<Rightarrow> int" where
  "int_of_long v = (v + 2147483648) mod 4294967296 - 2147483648"

definition atoi :: "string \<Rightarrow> int" where
  "atoi s = int_of_long (strtol s)"

text \<open>
  Lines 59--64 of \<^verbatim>\<open>main\<close>: the grid extents from the command line; \<open>argv\<close> includes
  the program name, \<open>argc\<close> is its length. \<open>None\<close> is the branch that prints the error
  and calls \<^verbatim>\<open>exit(-1)\<close>.
\<close>

definition parse_args :: "string list \<Rightarrow> (int \<times> int \<times> int) option" where
  "parse_args argv =
    (let argc = int (length argv) in
     case (if argc = 1 then Some (128, 128, 128)
           else if argc = 2 then Some (atoi (argv ! 1), atoi (argv ! 1), atoi (argv ! 1))
           else if argc = 4 then Some (atoi (argv ! 1), atoi (argv ! 2), atoi (argv ! 3))
           else None) of
       None \<Rightarrow> None
     | Some (nx, ny, nz) \<Rightarrow>
         let ny = (if ny < 0 then nx else ny);
             nz = (if nz < 0 then nx else nz)
         in Some (nx, ny, nz))"

text \<open>
  What a run of \<^verbatim>\<open>main\<close> does, in program order: the MPI calls, the output to
  \<^verbatim>\<open>std::cerr\<close> and \<^verbatim>\<open>std::cout\<close>, and the calls into the components that are not
  part of the sources (each of which may communicate while it runs).
\<close>

datatype event =
    MPI_Init
  | MPI_Barrier
  | MPI_Finalize
  | Cerr string
  | Cout_decomposition int int int int int int
  | Cout_local_grid int
  | Construct_decomp3d int int int
  | Call_laplace3d_stencil int int int
  | Call_cg_solver stencil3d int "real list" "real list" real int
  | Timer_summarize

datatype outcome =
    Returned int
  | Exited int
  | Aborted error

text \<open>
  The surroundings of a run: \<^verbatim>\<open>rank\<close>, \<^verbatim>\<open>nproc\<close> and \<^verbatim>\<open>n\<close>, which \<^verbatim>\<open>main\<close> uses
  without declaring them, and the two components it calls that are not part of the
  sources, the constructor of \<^verbatim>\<open>decomp3d\<close> and \<^verbatim>\<open>cg_solver\<close>; either may throw.
\<close>

record environment =
  env_rank :: int
  env_nproc :: int
  env_n :: int
  decomp3d_ctor :: "int \<Rightarrow> int \<Rightarrow> int \<Rightarrow> error + decomp3d"
  cg_solver :: "stencil3d \<Rightarrow> int \<Rightarrow> real list \<Rightarrow> real list \<Rightarrow> real \<Rightarrow> int
                \<Rightarrow> error + (real list \<times> real \<times> int)"

text \<open>Lines 77--81: the ordered printing, one barrier per process.\<close>

function print_loop :: "environment \<Rightarrow> int \<Rightarrow> event list" where
  "print_loop E p =
    (if p < env_nproc E
     then (if env_rank E = p then [Cout_local_grid (env_rank E)] else [])
          @ [MPI_Barrier] @ print_loop E (p + 1)
     else [])"
  by pat_completeness auto
termination
  by (relation "measure (\<lambda>(E, p). nat (env_nproc E - p))") auto

declare print_loop.simps [simp del]

text \<open>\<^verbatim>\<open>std::numeric_limits<double>::epsilon()\<close> of IEEE binary64.\<close>

definition epsilon :: real where
  "epsilon = 1 / 2 ^ 52"

text \<open>
  \<^verbatim>\<open>main\<close>. An exception that leaves \<^verbatim>\<open>main\<close> (from the constructor of
  \<^verbatim>\<open>decomp3d\<close> or from \<^verbatim>\<open>laplace3d_stencil\<close>, neither of which is inside the
  \<^verbatim>\<open>try\<close>) ends the run, as does an access outside an array. The text that
  \<^verbatim>\<open>e.what()\<close> appends to the message of the \<^verbatim>\<open>catch\<close> branch is left out. The
  unused \<^verbatim>\<open>nloc\<close> is not modelled. For an extent of 1 the spacing \<^verbatim>\<open>1.0/(nx-1)\<close> is
  infinite in C++ and \<open>0\<close> here; it is never used, since \<^verbatim>\<open>laplace3d_stencil\<close> throws
  for such a grid. \<open>argv\<close> is the command line as \<^verbatim>\<open>MPI_Init\<close> leaves it.
\<close>

definition main :: "environment \<Rightarrow> string list \<Rightarrow> outcome \<times> event list" where
  "main E argv =
    (let t0 = [MPI_Init] in
     case parse_args argv of
       None \<Rightarrow>
         (Exited (- 1), t0 @ [Cerr ''Invalid number of arguments (should be 0, 1 or 3)''])
     | Some (nx, ny, nz) \<Rightarrow>
        (let t1 = t0 @ [Construct_decomp3d nx ny nz] in
         case decomp3d_ctor E nx ny nz of
           Inl e \<Rightarrow> (Aborted e, t1)
         | Inr D \<Rightarrow>
            (let t2 = t1
                   @ (if env_rank E = 0
                      then [Cout_decomposition nx ny nz (npx D) (npy D) (npz D)] else [])
                   @ print_loop E 0;
                 dx = 1 / real_of_int (nx - 1);
                 dy = 1 / real_of_int (ny - 1);
                 dz = 1 / real_of_int (nz - 1);
                 t3 = t2 @ [Call_laplace3d_stencil nx ny nz]
             in
             case laplace3d_stencil nx ny nz of
               Inl e \<Rightarrow> (Aborted e, t3)
             | Inr L0 \<Rightarrow>
                (let L = stencil3d_coeffs.extend L0 (stencil3d.fields D);
                     n = env_n E;
                     x = init n (new_double n) 0;
                     b = init n (new_double n) 0
                 in
                 case rhs_forcing L nx ny nz dx dy dz b of
                   Inl e \<Rightarrow> (Aborted e, t3)
                 | Inr b1 \<Rightarrow>
                    (case rhs_dirichlet L nx ny dx dy b1 of
                       Inl e \<Rightarrow> (Aborted e, t3)
                     | Inr b2 \<Rightarrow>
                        (let maxIter = 500;
                             tol = sqrt epsilon;
                             t4 = t3 @ [Call_cg_solver L n x b2 tol maxIter]
                         in
                         case cg_solver E L n x b2 tol maxIter of
                           Inl e \<Rightarrow>
                             (Exited (- 1), t4 @ [Cerr ''Caught an exception in cg_solve: ''])
                         | Inr r \<Rightarrow>
                             (Returned 0, t4 @ [Timer_summarize, MPI_Finalize])))))))"

text \<open>Observations on a trace.\<close>

fun is_cg_call :: "event \<Rightarrow> bool" where
  "is_cg_call (Call_cg_solver L n x b tol maxIter) = True"
| "is_cg_call e = False"

definition solve_attempted :: "event list \<Rightarrow> bool" where
  "solve_attempted t = list_ex is_cg_call t"

fun is_decomp_construction :: "event \<Rightarrow> bool" where
  "is_decomp_construction (Construct_decomp3d nx ny nz) = True"
| "is_decomp_construction e = False"

text \<open>Nothing follows the first \<open>MPI_Finalize\<close> of a trace.\<close>

fun finalize_is_last :: "event list \<Rightarrow> bool" where
  "finalize_is_last [] = True"
| "finalize_is_last (e # t) = (if e = MPI_Finalize then t = [] else finalize_is_last t)"

text \<open>
  The decomposition of a run with a single process, which owns the whole grid, and
  surroundings in which the solver returns: the fixtures of the examples below.
\<close>

definition single_process :: "int \<Rightarrow> int \<Rightarrow> int \<Rightarrow> decomp3d" where
  "single_process nx ny nz =
    \<lparr> npx = 1, npy = 1, npz = 1, nx_loc = nx, ny_loc = ny, nz_loc = nz \<rparr>"

definition serial_env :: "int \<Rightarrow> environment" where
  "serial_env n =
    \<lparr> env_rank = 0, env_nproc = 1, env_n = n,
      decomp3d_ctor = (\<lambda>nx ny nz. Inr (single_process nx ny nz)),
      cg_solver = (\<lambda>L n x b tol maxIter. Inr (x, 0, 0)) \<rparr>"

text \<open>The tolerance and iteration bound of every solver call of a trace, in order.\<close>

fun cg_parameters :: "event list \<Rightarrow> (real \<times> int) list" where
  "cg_parameters [] = []"
| "cg_parameters (Call_cg_solver L n x b tol maxIter # t) = (tol, maxIter) # cg_parameters t"
| "cg_parameters (e # t) = cg_parameters t"

text \<open>The stencil of a single-process run, as \<^verbatim>\<open>main\<close> assembles it.\<close>

definition serial_stencil :: "int \<Rightarrow> int \<Rightarrow> int \<Rightarrow> stencil3d" where
  "serial_stencil nx ny nz =
     stencil3d_coeffs.extend (projr (laplace3d_stencil nx ny nz))
       (stencil3d.fields (single_process nx ny nz))"

section \<open>Binary64 arithmetic\<close>

text \<open>
  Where rounding decides, the expressions of the source are read in IEEE binary64, the
  format of \<^verbatim>\<open>double\<close>: every operation returns the representable number nearest to
  its exact result, ties going to the even significand. \<open>exponent a\<close> is the \<open>e\<close> with
  \<open>pow2 e \<le> a < pow2 (e + 1)\<close>, kept within the exponent range of the format, and the
  significand has 53 bits. Infinities and NaN are not modelled.
\<close>

definition pow2 :: "int \<Rightarrow> real" where
  "pow2 e = (if 0 \<le> e then 2 ^ nat e else 1 / 2 ^ nat (- e))"

function exponent_down :: "real \<Rightarrow> int \<Rightarrow> int" where
  "exponent_down a e = (if - 1022 < e \<and> a < pow2 e then exponent_down a (e - 1) else e)"
  by pat_completeness auto
termination
  by (relation "measure (\<lambda>(a, e). nat (e + 1022))") auto

function exponent_up :: "real \<Rightarrow> int \<Rightarrow> int" where
  "exponent_up a e = (if e < 1023 \<and> pow2 (e + 1) \<le> a then exponent_up a (e + 1) else e)"
  by pat_completeness auto
termination
  by (relation "measure (\<lambda>(a, e). nat (1023 - e))") auto

declare exponent_down.simps [simp del] exponent_up.simps [simp del]

definition exponent :: "real \<Rightarrow> int" where
  "exponent a = (if a < 1 then exponent_down a 0 else exponent_up a 0)"

definition round_to_even :: "real \<Rightarrow> int" where
  "round_to_even x =
    (let n = \<lfloor>x\<rfloor>; d = x - of_int n
     in if d < 1 / 2 then n else if 1 / 2 < d then n + 1 else if even n then n else n + 1)"

definition binary64 :: "real \<Rightarrow> real" where
  "binary64 x =
    (let u = pow2 (exponent \<bar>x\<bar> - 52) in of_int (round_to_even (x / u)) * u)"

text \<open>
  In binary64: the spacing \<^verbatim>\<open>1.0/(n-1)\<close> of lines 41 and 83, \<^verbatim>\<open>g_0\<close> of line 33,
  \<^verbatim>\<open>value_b\<close> of line 48, and the value that line 124 leaves in the entry of \<open>(i,j,0)\<close>
  when it held \<open>old\<close>.
\<close>

definition spacing_double :: "int \<Rightarrow> real" where
  "spacing_double n = binary64 (1 / real_of_int (n - 1))"

definition g_0_double :: "real \<Rightarrow> real \<Rightarrow> real" where
  "g_0_double x y =
    binary64 (binary64 (binary64 (x * binary64 (1 - x)) * y) * binary64 (1 - y))"

definition value_b_double :: "int \<Rightarrow> real" where
  "value_b_double nz =
    (let dz = spacing_double nz in binary64 (- 1 / binary64 (dz * dz)))"

definition fold_double :: "int \<Rightarrow> int \<Rightarrow> int \<Rightarrow> int \<Rightarrow> int \<Rightarrow> real \<Rightarrow> real" where
  "fold_double nx ny nz i j old =
    (let dx = spacing_double nx; dy = spacing_double ny
     in binary64 (old - binary64 (value_b_double nz
          * g_0_double (binary64 (real_of_int i * dx)) (binary64 (real_of_int j * dy)))))"

section \<open>Notions used to state what the loops do\<close>

text \<open>
  \<open>updates b b' P u\<close>: the array \<open>b'\<close> has the length of \<open>b\<close>, its entries at the
  positions in \<open>P\<close> are those of \<open>b\<close> transformed by \<open>u\<close>, and all other entries are
  those of \<open>b\<close>.
\<close>

definition updates :: "real list \<Rightarrow> real list \<Rightarrow> int set \<Rightarrow> (int \<Rightarrow> real \<Rightarrow> real) \<Rightarrow> bool" where
  "updates b b' P u \<longleftrightarrow>
     length b' = length b \<and>
     (\<forall>m. 0 \<le> m \<and> m < int (length b) \<longrightarrow>
        b' ! nat m = (if m \<in> P then u m (b ! nat m) else b ! nat m))"

text \<open>The linear positions of a row, a plane and the whole grid of the loops.\<close>

definition grid_row :: "stencil3d \<Rightarrow> int \<Rightarrow> int \<Rightarrow> int \<Rightarrow> int set" where
  "grid_row L nx j k = (\<Union>i\<in>{0..<nx}. {index_c L i j k})"

definition grid_plane :: "stencil3d \<Rightarrow> int \<Rightarrow> int \<Rightarrow> int \<Rightarrow> int set" where
  "grid_plane L nx ny k = (\<Union>j\<in>{0..<ny}. grid_row L nx j k)"

definition grid_box :: "stencil3d \<Rightarrow> int \<Rightarrow> int \<Rightarrow> int \<Rightarrow> int set" where
  "grid_box L nx ny nz = (\<Union>k\<in>{0..<nz}. grid_plane L nx ny k)"

text \<open>
  The forcing value and the folded value that belong to a linear position, through the
  coordinates the position decodes to.
\<close>

definition forcing_at :: "stencil3d \<Rightarrow> real \<Rightarrow> real \<Rightarrow> real \<Rightarrow> int \<Rightarrow> real" where
  "forcing_at L dx dy dz m =
     f (real_of_int (m mod nx_loc (DD L)) * dx)
       (real_of_int (m div nx_loc (DD L) mod ny_loc (DD L)) * dy)
       (real_of_int (m div nx_loc (DD L) div ny_loc (DD L)) * dz)"

definition folded_at :: "stencil3d \<Rightarrow> real \<Rightarrow> real \<Rightarrow> int \<Rightarrow> real \<Rightarrow> real" where
  "folded_at L dx dy m old =
     old - value_b L * g_0 (real_of_int (m mod nx_loc (DD L)) * dx)
                            (real_of_int (m div nx_loc (DD L) mod ny_loc (DD L)) * dy)"

text \<open>
  \<open>sampled L dx dy dz P b\<close>: the entry of every grid point of \<open>P\<close> lies in the array \<open>b\<close>
  and holds the value of \<open>f\<close> at a grid point of \<open>P\<close> with the same linear index.
\<close>

definition sampled ::
  "stencil3d \<Rightarrow> real \<Rightarrow> real \<Rightarrow> real \<Rightarrow> (int \<times> int \<times> int) set \<Rightarrow> real list \<Rightarrow> bool" where
  "sampled L dx dy dz P b \<longleftrightarrow>
     (\<forall>i j k. (i, j, k) \<in> P \<longrightarrow>
        0 \<le> index_c L i j k \<and> index_c L i j k < int (length b) \<and>
        (\<exists>i' j' k'. (i', j', k') \<in> P \<and>
           index_c L i' j' k' = index_c L i j k \<and>
           b ! nat (index_c L i j k)
             = f (real_of_int i' * dx) (real_of_int j' * dy) (real_of_int k' * dz)))"

text \<open>
  \<open>untouched L b0 P b\<close>: \<open>b\<close> has the length of \<open>b0\<close> and agrees with it at every position
  that is not the linear index of a point \<open>(i,j,0)\<close> with \<open>(i,j)\<close> in \<open>P\<close>.
\<close>

definition untouched ::
  "stencil3d \<Rightarrow> real list \<Rightarrow> (int \<times> int) set \<Rightarrow> real list \<Rightarrow> bool" where
  "untouched L b0 P b \<longleftrightarrow>
     length b = length b0 \<and>
     (\<forall>m. 0 \<le> m \<and> m < int (length b0) \<and> (\<forall>i j. (i, j) \<in> P \<longrightarrow> index_c L i j 0 \<noteq> m)
        \<longrightarrow> b ! nat m = b0 ! nat m)"

section \<open>Loops and index arithmetic\<close>

lemma updates_refl: "updates b b {} u"
  by (simp add: updates_def)

lemma updates_trans:
  assumes "updates b b1 P u" "updates b1 b2 Q u" "P \<inter> Q = {}"
  shows "updates b b2 (P \<union> Q) u"
  using assms unfolding updates_def by auto

lemma for_loop_updates:
  assumes body: "\<And>i b. lo \<le> i \<Longrightarrow> i < hi \<Longrightarrow> length b = N \<Longrightarrow>
                   \<exists>b'. body i b = Inr b' \<and> updates b b' (P i) u"
    and disj: "\<And>i i'. lo \<le> i \<Longrightarrow> i < i' \<Longrightarrow> i' < hi \<Longrightarrow> P i \<inter> P i' = {}"
    and len: "length b = N"
  shows "\<exists>b'. for_loop lo hi body b = Inr b' \<and> updates b b' (\<Union>i\<in>{lo..<hi}. P i) u"
  using assms
proof (induction "nat (hi - lo)" arbitrary: lo b)
  case 0
  then have "\<not> lo < hi" by simp
  then show ?case by (simp add: for_loop.simps updates_refl)
next
  case (Suc d)
  then have lt: "lo < hi" by simp
  obtain b1 where b1: "body lo b = Inr b1" "updates b b1 (P lo) u"
    using Suc.prems(1)[of lo b] lt Suc.prems(3) by auto
  have len1: "length b1 = N" using b1(2) Suc.prems(3) by (simp add: updates_def)
  have d: "d = nat (hi - (lo + 1))" using Suc.hyps(2) by simp
  obtain b2 where b2: "for_loop (lo + 1) hi body b1 = Inr b2"
      "updates b1 b2 (\<Union>i\<in>{lo + 1..<hi}. P i) u"
    using Suc.hyps(1)[OF d, of b1] Suc.prems(1,2) len1 by force
  have "P lo \<inter> P i = {}" if "lo + 1 \<le> i" "i < hi" for i
    using Suc.prems(2)[of lo i] that by simp
  then have dj: "P lo \<inter> (\<Union>i\<in>{lo + 1..<hi}. P i) = {}"
    by fastforce
  have split: "{lo..<hi} = insert lo {lo + 1..<hi}" using lt by auto
  have "updates b b2 (P lo \<union> (\<Union>i\<in>{lo + 1..<hi}. P i)) u"
    by (rule updates_trans[OF b1(2) b2(2) dj])
  then have "updates b b2 (\<Union>i\<in>{lo..<hi}. P i) u" by (simp add: split)
  moreover have "for_loop lo hi body b = Inr b2"
    using lt b1(1) b2(1) by (subst for_loop.simps) simp
  ultimately show ?case by blast
qed

lemma store_updates:
  assumes "0 \<le> idx" "idx < int (length b)" "u idx (b ! nat idx) = v"
  shows "\<exists>b'. store b idx v = Inr b' \<and> updates b b' {idx} u"
  using assms by (auto simp: store_def updates_def nth_list_update)

lemma index_decode:
  fixes i j k nxl nyl :: int
  assumes "0 \<le> i" "i < nxl" "0 \<le> j" "j < nyl"
  shows "(k * nxl * nyl + j * nxl + i) mod nxl = i"
    and "((k * nxl * nyl + j * nxl + i) div nxl) mod nyl = j"
    and "(k * nxl * nyl + j * nxl + i) div nxl div nyl = k"
proof -
  have e: "k * nxl * nyl + j * nxl + i = i + (k * nyl + j) * nxl" by (simp add: algebra_simps)
  show "(k * nxl * nyl + j * nxl + i) mod nxl = i" using assms by (simp add: e)
  have d: "(k * nxl * nyl + j * nxl + i) div nxl = j + k * nyl" using assms by (simp add: e)
  show "((k * nxl * nyl + j * nxl + i) div nxl) mod nyl = j" using assms by (simp add: d)
  show "(k * nxl * nyl + j * nxl + i) div nxl div nyl = k" using assms by (simp add: d)
qed

lemma index_bounds:
  fixes i j k nxl nyl nz :: int
  assumes "0 \<le> i" "i < nxl" "0 \<le> j" "j < nyl" "0 \<le> k" "k < nz"
  shows "0 \<le> k * nxl * nyl + j * nxl + i" and "k * nxl * nyl + j * nxl + i < nxl * nyl * nz"
proof -
  have "0 \<le> k * nxl * nyl" "0 \<le> j * nxl" using assms by simp_all
  then show "0 \<le> k * nxl * nyl + j * nxl + i" using assms by linarith
  have a: "j * nxl + i < nyl * nxl"
  proof -
    have "j * nxl + i < j * nxl + nxl" using assms by simp
    also have "\<dots> = (j + 1) * nxl" by (simp add: algebra_simps)
    also have "\<dots> \<le> nyl * nxl" using assms by (intro mult_right_mono) simp_all
    finally show ?thesis .
  qed
  have "k * nxl * nyl + j * nxl + i < k * (nxl * nyl) + nxl * nyl" using a by (simp add: algebra_simps)
  also have "\<dots> = (k + 1) * (nxl * nyl)" by (simp add: algebra_simps)
  also have "\<dots> \<le> nz * (nxl * nyl)" using assms by (intro mult_right_mono) simp_all
  finally show "k * nxl * nyl + j * nxl + i < nxl * nyl * nz" by (simp add: algebra_simps)
qed

lemma index_c_decode:
  assumes "0 \<le> i" "i < nx_loc (DD L)" "0 \<le> j" "j < ny_loc (DD L)"
  shows "index_c L i j k mod nx_loc (DD L) = i"
    and "index_c L i j k div nx_loc (DD L) mod ny_loc (DD L) = j"
    and "index_c L i j k div nx_loc (DD L) div ny_loc (DD L) = k"
  using index_decode[OF assms, of k] by (simp_all add: index_c_def)

lemma index_c_bounds:
  assumes "0 \<le> i" "i < nx_loc (DD L)" "0 \<le> j" "j < ny_loc (DD L)" "0 \<le> k" "k < nz"
  shows "0 \<le> index_c L i j k"
    and "index_c L i j k < nx_loc (DD L) * ny_loc (DD L) * nz"
  using index_bounds[OF assms] by (simp_all add: index_c_def)

lemma grid_row_disjoint:
  assumes "nx \<le> nx_loc (DD L)" "0 \<le> j" "j < j'" "j' < ny_loc (DD L)"
  shows "grid_row L nx j k \<inter> grid_row L nx j' k' = {}"
proof -
  have False if "0 \<le> i" "i < nx" "0 \<le> i'" "i' < nx" "index_c L i j k = index_c L i' j' k'"
    for i i'
  proof -
    have "index_c L i j k div nx_loc (DD L) mod ny_loc (DD L) = j"
      using assms that by (intro index_c_decode) simp_all
    moreover have "index_c L i' j' k' div nx_loc (DD L) mod ny_loc (DD L) = j'"
      using assms that by (intro index_c_decode) simp_all
    ultimately show False using that(5) assms(3) by simp
  qed
  then show ?thesis unfolding grid_row_def by fastforce
qed

lemma grid_plane_disjoint:
  assumes "nx \<le> nx_loc (DD L)" "ny \<le> ny_loc (DD L)" "k < k'"
  shows "grid_plane L nx ny k \<inter> grid_plane L nx ny k' = {}"
proof -
  have False if "0 \<le> i" "i < nx" "0 \<le> i'" "i' < nx" "0 \<le> j" "j < ny" "0 \<le> j'" "j' < ny"
     "index_c L i j k = index_c L i' j' k'" for i i' j j'
  proof -
    have "index_c L i j k div nx_loc (DD L) div ny_loc (DD L) = k"
      using assms that by (intro index_c_decode) simp_all
    moreover have "index_c L i' j' k' div nx_loc (DD L) div ny_loc (DD L) = k'"
      using assms that by (intro index_c_decode) simp_all
    ultimately show False using that(9) assms(3) by simp
  qed
  then show ?thesis unfolding grid_plane_def grid_row_def by fastforce
qed

lemma rhs_forcing_updates:
  assumes nx: "nx \<le> nx_loc (DD L)" and ny: "ny \<le> ny_loc (DD L)"
    and len: "nx_loc (DD L) * ny_loc (DD L) * nz \<le> int (length b)"
  shows "\<exists>b'. rhs_forcing L nx ny nz dx dy dz b = Inr b' \<and>
               updates b b' (grid_box L nx ny nz) (\<lambda>m old. forcing_at L dx dy dz m)"
proof -
  let ?u = "\<lambda>m (old::real). forcing_at L dx dy dz m"
  let ?N = "length b"
  have cell: "\<exists>c'. store c (index_c L i j k)
                 (f (real_of_int i * dx) (real_of_int j * dy) (real_of_int k * dz)) = Inr c'
               \<and> updates c c' {index_c L i j k} ?u"
    if "0 \<le> i" "i < nx" "0 \<le> j" "j < ny" "0 \<le> k" "k < nz" "length c = ?N" for i j k c
  proof (rule store_updates)
    show "0 \<le> index_c L i j k"
      using that nx ny by (intro index_c_bounds(1)) simp_all
    have "index_c L i j k < nx_loc (DD L) * ny_loc (DD L) * nz"
      using that nx ny by (intro index_c_bounds(2)) simp_all
    then show "index_c L i j k < int (length c)" using len that(7) by simp
    show "forcing_at L dx dy dz (index_c L i j k)
           = f (real_of_int i * dx) (real_of_int j * dy) (real_of_int k * dz)"
      using that nx ny by (simp add: forcing_at_def index_c_decode)
  qed
  have row: "\<exists>c'. for_loop 0 nx (\<lambda>i b.
                 let x = real_of_int i * dx; idx = index_c L i j k
                 in store b idx (f x (real_of_int j * dy) (real_of_int k * dz))) c = Inr c'
               \<and> updates c c' (grid_row L nx j k) ?u"
    if "0 \<le> j" "j < ny" "0 \<le> k" "k < nz" "length c = ?N" for j k c
    unfolding grid_row_def
  proof (rule for_loop_updates[where N = ?N])
    show "length c = ?N" by (rule that)
    show "{index_c L i j k} \<inter> {index_c L i' j k} = {}" if "i < i'" for i i'
      using that by (simp add: index_c_def)
    show "\<exists>b'. (let x = real_of_int i * dx; idx = index_c L i j k
                 in store c' idx (f x (real_of_int j * dy) (real_of_int k * dz))) = Inr b'
               \<and> updates c' b' {index_c L i j k} ?u"
      if "0 \<le> i" "i < nx" "length c' = ?N" for i c'
      using cell[OF that(1,2) \<open>0 \<le> j\<close> \<open>j < ny\<close> \<open>0 \<le> k\<close> \<open>k < nz\<close> that(3)]
      by (simp add: Let_def)
  qed
  have plane: "\<exists>c'. for_loop 0 ny (\<lambda>j b.
                 let y = real_of_int j * dy in
                 for_loop 0 nx (\<lambda>i b.
                   let x = real_of_int i * dx; idx = index_c L i j k
                   in store b idx (f x y (real_of_int k * dz))) b) c = Inr c'
               \<and> updates c c' (grid_plane L nx ny k) ?u"
    if "0 \<le> k" "k < nz" "length c = ?N" for k c
    unfolding grid_plane_def
  proof (rule for_loop_updates[where N = ?N])
    show "length c = ?N" by (rule that)
    show "grid_row L nx j k \<inter> grid_row L nx j' k = {}" if "0 \<le> j" "j < j'" "j' < ny" for j j'
      using that nx ny by (intro grid_row_disjoint) simp_all
    show "\<exists>b'. (let y = real_of_int j * dy in
                 for_loop 0 nx (\<lambda>i b.
                   let x = real_of_int i * dx; idx = index_c L i j k
                   in store b idx (f x y (real_of_int k * dz))) c') = Inr b'
               \<and> updates c' b' (grid_row L nx j k) ?u"
      if "0 \<le> j" "j < ny" "length c' = ?N" for j c'
      using row[OF that(1,2) \<open>0 \<le> k\<close> \<open>k < nz\<close> that(3)] by (simp add: Let_def)
  qed
  show ?thesis
    unfolding rhs_forcing_def grid_box_def
  proof (rule for_loop_updates[where N = ?N])
    show "length b = ?N" by simp
    show "grid_plane L nx ny k \<inter> grid_plane L nx ny k' = {}" if "0 \<le> k" "k < k'" "k' < nz" for k k'
      using that nx ny by (intro grid_plane_disjoint) simp_all
    show "\<exists>b'. (let z = real_of_int k * dz in
                 for_loop 0 ny (\<lambda>j b.
                   let y = real_of_int j * dy in
                   for_loop 0 nx (\<lambda>i b.
                     let x = real_of_int i * dx; idx = index_c L i j k
                     in store b idx (f x y z)) b) c') = Inr b'
               \<and> updates c' b' (grid_plane L nx ny k) ?u"
      if "0 \<le> k" "k < nz" "length c' = ?N" for k c'
      using plane[OF that] by (simp add: Let_def)
  qed
qed

lemma load_store_updates:
  assumes "0 \<le> idx" "idx < int (length b)" "u idx (b ! nat idx) = b ! nat idx - c"
  shows "\<exists>b'. (case load b idx of Inl e \<Rightarrow> Inl e | Inr v \<Rightarrow> store b idx (v - c)) = Inr b'
              \<and> updates b b' {idx} u"
  using assms by (auto simp: load_def store_def updates_def nth_list_update)

lemma rhs_dirichlet_updates:
  assumes nx: "nx \<le> nx_loc (DD L)" and ny: "ny \<le> ny_loc (DD L)"
    and len: "nx_loc (DD L) * ny_loc (DD L) \<le> int (length b)"
  shows "\<exists>b'. rhs_dirichlet L nx ny dx dy b = Inr b' \<and>
               updates b b' (grid_plane L nx ny 0) (folded_at L dx dy)"
proof -
  let ?u = "folded_at L dx dy"
  let ?N = "length b"
  have cell: "\<exists>c'. (case load c (index_c L i j 0) of
                      Inl e \<Rightarrow> Inl e
                    | Inr v \<Rightarrow> store c (index_c L i j 0)
                        (v - value_b L * g_0 (real_of_int i * dx) (real_of_int j * dy))) = Inr c'
               \<and> updates c c' {index_c L i j 0} ?u"
    if "0 \<le> i" "i < nx" "0 \<le> j" "j < ny" "length c = ?N" for i j c
  proof (rule load_store_updates)
    show "0 \<le> index_c L i j 0"
      using that nx ny by (intro index_c_bounds(1)[where nz = 1]) simp_all
    have "index_c L i j 0 < nx_loc (DD L) * ny_loc (DD L) * 1"
      using that nx ny by (intro index_c_bounds(2)) simp_all
    then show "index_c L i j 0 < int (length c)" using len that(5) by simp
    show "folded_at L dx dy (index_c L i j 0) (c ! nat (index_c L i j 0))
           = c ! nat (index_c L i j 0)
             - value_b L * g_0 (real_of_int i * dx) (real_of_int j * dy)"
      using that nx ny by (simp add: folded_at_def index_c_decode)
  qed
  have row: "\<exists>c'. for_loop 0 nx (\<lambda>i b.
                 case load b (index_c L i j 0) of
                   Inl e \<Rightarrow> Inl e
                 | Inr v \<Rightarrow> store b (index_c L i j 0)
                     (v - value_b L * g_0 (real_of_int i * dx) (real_of_int j * dy))) c = Inr c'
               \<and> updates c c' (grid_row L nx j 0) ?u"
    if "0 \<le> j" "j < ny" "length c = ?N" for j c
    unfolding grid_row_def
  proof (rule for_loop_updates[where N = ?N])
    show "length c = ?N" by (rule that)
    show "{index_c L i j 0} \<inter> {index_c L i' j 0} = {}" if "i < i'" for i i'
      using that by (simp add: index_c_def)
    show "\<exists>b'. (case load c' (index_c L i j 0) of
                   Inl e \<Rightarrow> Inl e
                 | Inr v \<Rightarrow> store c' (index_c L i j 0)
                     (v - value_b L * g_0 (real_of_int i * dx) (real_of_int j * dy))) = Inr b'
               \<and> updates c' b' {index_c L i j 0} ?u"
      if "0 \<le> i" "i < nx" "length c' = ?N" for i c'
      by (rule cell[OF that(1,2) \<open>0 \<le> j\<close> \<open>j < ny\<close> that(3)])
  qed
  show ?thesis
    unfolding rhs_dirichlet_def grid_plane_def
  proof (rule for_loop_updates[where N = ?N])
    show "length b = ?N" by simp
    show "grid_row L nx j 0 \<inter> grid_row L nx j' 0 = {}" if "0 \<le> j" "j < j'" "j' < ny" for j j'
      using that nx ny by (intro grid_row_disjoint) simp_all
    show "\<exists>b'. for_loop 0 nx (\<lambda>i b.
                 case load b (index_c L i j 0) of
                   Inl e \<Rightarrow> Inl e
                 | Inr v \<Rightarrow> store b (index_c L i j 0)
                     (v - value_b L * g_0 (real_of_int i * dx) (real_of_int j * dy))) c' = Inr b'
               \<and> updates c' b' (grid_row L nx j 0) ?u"
      if "0 \<le> j" "j < ny" "length c' = ?N" for j c'
      by (rule row[OF that])
  qed
qed

lemma in_grid_plane:
  "0 \<le> i \<Longrightarrow> i < nx \<Longrightarrow> 0 \<le> j \<Longrightarrow> j < ny \<Longrightarrow> index_c L i j k \<in> grid_plane L nx ny k"
  unfolding grid_plane_def grid_row_def
  by simp (rule bexI[of _ j], rule bexI[of _ i], simp_all)

lemma in_grid_box:
  "0 \<le> i \<Longrightarrow> i < nx \<Longrightarrow> 0 \<le> j \<Longrightarrow> j < ny \<Longrightarrow> 0 \<le> k \<Longrightarrow> k < nz
    \<Longrightarrow> index_c L i j k \<in> grid_box L nx ny nz"
  unfolding grid_box_def grid_plane_def grid_row_def
  by simp (rule bexI[of _ k], rule bexI[of _ j], rule bexI[of _ i], simp_all)

lemma not_in_grid_plane:
  assumes "nx \<le> nx_loc (DD L)" "ny \<le> ny_loc (DD L)"
    "0 \<le> i" "i < nx" "0 \<le> j" "j < ny" "k \<noteq> k'"
  shows "index_c L i j k \<notin> grid_plane L nx ny k'"
proof
  assume "index_c L i j k \<in> grid_plane L nx ny k'"
  then obtain i' j' where ij: "0 \<le> i'" "i' < nx" "0 \<le> j'" "j' < ny"
      "index_c L i j k = index_c L i' j' k'"
    by (auto simp: grid_plane_def grid_row_def)
  have "index_c L i j k div nx_loc (DD L) div ny_loc (DD L) = k"
    using assms by (intro index_c_decode) simp_all
  moreover have "index_c L i' j' k' div nx_loc (DD L) div ny_loc (DD L) = k'"
    using assms ij by (intro index_c_decode) simp_all
  ultimately show False using ij(5) assms(7) by simp
qed

lemma rhs_forcing_entries:
  assumes nx: "nx \<le> nx_loc (DD L)" and ny: "ny \<le> ny_loc (DD L)"
    and len: "nx_loc (DD L) * ny_loc (DD L) * nz \<le> int (length b)"
  shows "\<exists>b'. rhs_forcing L nx ny nz dx dy dz b = Inr b' \<and> length b' = length b \<and>
    (\<forall>i j k. 0 \<le> i \<and> i < nx \<and> 0 \<le> j \<and> j < ny \<and> 0 \<le> k \<and> k < nz \<longrightarrow>
       b' ! nat (index_c L i j k)
         = f (real_of_int i * dx) (real_of_int j * dy) (real_of_int k * dz))"
proof -
  obtain b' where b': "rhs_forcing L nx ny nz dx dy dz b = Inr b'"
      "updates b b' (grid_box L nx ny nz) (\<lambda>m old. forcing_at L dx dy dz m)"
    using rhs_forcing_updates[OF assms] by blast
  have "b' ! nat (index_c L i j k)
         = f (real_of_int i * dx) (real_of_int j * dy) (real_of_int k * dz)"
    if "0 \<le> i" "i < nx" "0 \<le> j" "j < ny" "0 \<le> k" "k < nz" for i j k
  proof -
    have lo: "0 \<le> index_c L i j k"
      using that nx ny by (intro index_c_bounds(1)) simp_all
    have "index_c L i j k < nx_loc (DD L) * ny_loc (DD L) * nz"
      using that nx ny by (intro index_c_bounds(2)) simp_all
    then have hi: "index_c L i j k < int (length b)" using len by simp
    have mem: "index_c L i j k \<in> grid_box L nx ny nz"
      using that by (intro in_grid_box)
    have "b' ! nat (index_c L i j k) = forcing_at L dx dy dz (index_c L i j k)"
      using b'(2) lo hi mem by (simp add: updates_def)
    then show ?thesis
      using that nx ny by (simp add: forcing_at_def index_c_decode)
  qed
  moreover have "length b' = length b" using b'(2) by (simp add: updates_def)
  ultimately show ?thesis using b'(1) by blast
qed

lemma rhs_dirichlet_entries:
  assumes pos: "0 < nx" "0 < ny" "0 < nz"
    and nx: "nx \<le> nx_loc (DD L)" and ny: "ny \<le> ny_loc (DD L)"
    and len: "nx_loc (DD L) * ny_loc (DD L) * nz \<le> int (length b)"
  shows "\<exists>b'. rhs_dirichlet L nx ny dx dy b = Inr b' \<and> length b' = length b \<and>
    (\<forall>i j. 0 \<le> i \<and> i < nx \<and> 0 \<le> j \<and> j < ny \<longrightarrow>
       b' ! nat (index_c L i j 0)
         = b ! nat (index_c L i j 0)
           - value_b L * g_0 (real_of_int i * dx) (real_of_int j * dy)) \<and>
    (\<forall>i j k. 0 \<le> i \<and> i < nx \<and> 0 \<le> j \<and> j < ny \<and> 0 < k \<and> k < nz \<longrightarrow>
       b' ! nat (index_c L i j k) = b ! nat (index_c L i j k))"
proof -
  have "0 \<le> nx_loc (DD L) * ny_loc (DD L)" using pos nx ny by simp
  then have "nx_loc (DD L) * ny_loc (DD L) * 1 \<le> nx_loc (DD L) * ny_loc (DD L) * nz"
    using pos(3) by (intro mult_left_mono) simp_all
  then have len0: "nx_loc (DD L) * ny_loc (DD L) \<le> int (length b)" using len by simp
  obtain b' where b': "rhs_dirichlet L nx ny dx dy b = Inr b'"
      "updates b b' (grid_plane L nx ny 0) (folded_at L dx dy)"
    using rhs_dirichlet_updates[OF nx ny len0] by blast
  have inb: "0 \<le> index_c L i j k \<and> index_c L i j k < int (length b)"
    if "0 \<le> i" "i < nx" "0 \<le> j" "j < ny" "0 \<le> k" "k < nz" for i j k
  proof -
    have "0 \<le> index_c L i j k"
      using that nx ny by (intro index_c_bounds(1)) simp_all
    moreover have "index_c L i j k < nx_loc (DD L) * ny_loc (DD L) * nz"
      using that nx ny by (intro index_c_bounds(2)) simp_all
    ultimately show ?thesis using len by simp
  qed
  have face: "b' ! nat (index_c L i j 0)
         = b ! nat (index_c L i j 0)
           - value_b L * g_0 (real_of_int i * dx) (real_of_int j * dy)"
    if "0 \<le> i" "i < nx" "0 \<le> j" "j < ny" for i j
  proof -
    have mem: "index_c L i j 0 \<in> grid_plane L nx ny 0"
      using that by (intro in_grid_plane)
    have "b' ! nat (index_c L i j 0)
           = folded_at L dx dy (index_c L i j 0) (b ! nat (index_c L i j 0))"
      using b'(2) inb[OF that _ pos(3)] mem by (simp add: updates_def)
    then show ?thesis
      using that nx ny by (simp add: folded_at_def index_c_decode)
  qed
  have rest: "b' ! nat (index_c L i j k) = b ! nat (index_c L i j k)"
    if "0 \<le> i" "i < nx" "0 \<le> j" "j < ny" "0 < k" "k < nz" for i j k
  proof -
    have "index_c L i j k \<notin> grid_plane L nx ny 0"
      using that nx ny by (intro not_in_grid_plane) simp_all
    then show ?thesis
      using b'(2) inb[of i j k] that by (simp add: updates_def)
  qed
  have "length b' = length b" using b'(2) by (simp add: updates_def)
  then show ?thesis using b'(1) face rest by blast
qed

lemma print_loop_events:
  "e \<in> set (print_loop E p) \<Longrightarrow> e = MPI_Barrier \<or> e = Cout_local_grid (env_rank E)"
proof (induction E p rule: print_loop.induct)
  case (1 E p)
  from "1.prems" show ?case
    by (subst (asm) print_loop.simps) (use "1.IH" in \<open>auto split: if_splits\<close>)
qed

lemma finalize_is_last_append:
  "MPI_Finalize \<notin> set t \<Longrightarrow> finalize_is_last (t @ u) = finalize_is_last u"
  by (induction t) auto

section \<open>Runs of the driver\<close>

lemma extend_fields [simp]:
  "DD (stencil3d_coeffs.extend L0 (stencil3d.fields D)) = D"
  "value_b (stencil3d_coeffs.extend L0 (stencil3d.fields D)) = value_b L0"
  by (simp_all add: stencil3d_coeffs.defs stencil3d.defs)

lemma length_init: "length (init n (new_double n) a) = nat n"
  by (simp add: init_def new_double_def)

lemma cg_parameters_append:
  "cg_parameters (t @ u) = cg_parameters t @ cg_parameters u"
  by (induction t rule: cg_parameters.induct) simp_all

lemma cg_parameters_nil: "cg_parameters t = [] \<longleftrightarrow> \<not> list_ex is_cg_call t"
  by (induction t rule: cg_parameters.induct) simp_all

lemma print_loop_no_cg_call: "list_ex is_cg_call (print_loop E p) = False"
proof -
  have "\<not> is_cg_call e" if "e \<in> set (print_loop E p)" for e
    using print_loop_events[OF that] by auto
  then show ?thesis by (auto simp: list_ex_iff)
qed

lemma cg_parameters_print_loop: "cg_parameters (print_loop E p) = []"
  by (simp add: cg_parameters_nil print_loop_no_cg_call)

lemma main_rhs:
  assumes grid: "3 \<le> nx" "3 \<le> ny" "3 \<le> nz"
    and cover: "nx \<le> nx_loc (DD L)" "ny \<le> ny_loc (DD L)"
    and alloc: "nx_loc (DD L) * ny_loc (DD L) * nz \<le> n"
  shows "\<exists>b1 b2. rhs_forcing L nx ny nz dx dy dz (init n (new_double n) 0) = Inr b1
             \<and> rhs_dirichlet L nx ny dx dy b1 = Inr b2"
proof -
  have "0 \<le> nx_loc (DD L) * ny_loc (DD L) * nz" using grid cover by simp
  then have n: "int (nat n) = n" using alloc by simp
  have len: "nx_loc (DD L) * ny_loc (DD L) * nz \<le> int (length (init n (new_double n) 0))"
    using alloc n by (simp add: length_init)
  obtain b1 where b1: "rhs_forcing L nx ny nz dx dy dz (init n (new_double n) 0) = Inr b1"
      "length b1 = length (init n (new_double n) 0)"
    using rhs_forcing_entries[OF cover len] by blast
  have len1: "nx_loc (DD L) * ny_loc (DD L) * nz \<le> int (length b1)"
    using len b1(2) by simp
  have "0 < nx" "0 < ny" "0 < nz" using grid by simp_all
  then obtain b2 where "rhs_dirichlet L nx ny dx dy b1 = Inr b2"
    using rhs_dirichlet_entries[OF _ _ _ cover len1] by blast
  with b1(1) show ?thesis by blast
qed

lemma main_reaches_solve:
  assumes args: "parse_args argv = Some (nx, ny, nz)"
    and grid: "3 \<le> nx" "3 \<le> ny" "3 \<le> nz"
    and dd: "decomp3d_ctor E nx ny nz = Inr D"
    and cover: "nx \<le> nx_loc D" "ny \<le> ny_loc D"
    and alloc: "nx_loc D * ny_loc D * nz \<le> env_n E"
  shows "solve_attempted (snd (main E argv))"
    and "(\<And>L n x b tol maxIter. \<not> isl (cg_solver E L n x b tol maxIter))
           \<Longrightarrow> fst (main E argv) = Returned 0"
proof -
  obtain L0 where L0: "laplace3d_stencil nx ny nz = Inr L0"
    using grid by (simp add: laplace3d_stencil_def Let_def)
  let ?L = "stencil3d_coeffs.extend L0 (stencil3d.fields D)"
  let ?dx = "1 / real_of_int (nx - 1)" and ?dy = "1 / real_of_int (ny - 1)"
    and ?dz = "1 / real_of_int (nz - 1)"
  obtain b1 b2 where
    b: "rhs_forcing ?L nx ny nz ?dx ?dy ?dz (init (env_n E) (new_double (env_n E)) 0) = Inr b1"
       "rhs_dirichlet ?L nx ny ?dx ?dy b1 = Inr b2"
    using main_rhs[where L = ?L and n = "env_n E" and dx = ?dx and dy = ?dy and dz = ?dz,
        OF grid] cover alloc by auto
  show "solve_attempted (snd (main E argv))"
    unfolding main_def Let_def solve_attempted_def list_ex_iff
    using args dd L0 b by (auto split: sum.splits)
  show "fst (main E argv) = Returned 0"
    if ok: "\<And>L n x b tol maxIter. \<not> isl (cg_solver E L n x b tol maxIter)"
  proof -
    obtain r where "cg_solver E ?L (env_n E) (init (env_n E) (new_double (env_n E)) 0) b2
                      (sqrt epsilon) 500 = Inr r"
      using ok[of ?L "env_n E" "init (env_n E) (new_double (env_n E)) 0" b2 "sqrt epsilon" 500]
      by (cases "cg_solver E ?L (env_n E) (init (env_n E) (new_double (env_n E)) 0) b2
                      (sqrt epsilon) 500") auto
    then show ?thesis
      unfolding main_def Let_def using args dd L0 b by simp
  qed
qed

lemmas atoi_simps =
  atoi_def int_of_long_def strtol_def number_written_def isspace_def isdigit_def

lemma parse_3: "parse_args [''main_cg_poisson'', ''3''] = Some (3, 3, 3)"
  by (simp add: parse_args_def atoi_simps)

lemma serial_run:
  "solve_attempted (snd (main (serial_env 27) [''main_cg_poisson'', ''3'']))"
  "fst (main (serial_env 27) [''main_cg_poisson'', ''3'']) = Returned 0"
proof -
  have dd: "decomp3d_ctor (serial_env 27) 3 3 3 = Inr (single_process 3 3 3)"
    by (simp add: serial_env_def)
  show "solve_attempted (snd (main (serial_env 27) [''main_cg_poisson'', ''3'']))"
    by (rule main_reaches_solve(1)[OF parse_3 _ _ _ dd])
       (simp_all add: single_process_def serial_env_def)
  show "fst (main (serial_env 27) [''main_cg_poisson'', ''3'']) = Returned 0"
    by (rule main_reaches_solve(2)[OF parse_3 _ _ _ dd])
       (simp_all add: single_process_def serial_env_def)
qed

lemma print_loop_no_finalize: "MPI_Finalize \<notin> set (print_loop E p)"
  using print_loop_events[of MPI_Finalize E p] by auto

lemma parse_2: "parse_args [''main_cg_poisson'', ''2''] = Some (2, 2, 2)"
  by (simp add: parse_args_def atoi_simps)

lemma serial_stencil_DD [simp]: "DD (serial_stencil nx ny nz) = single_process nx ny nz"
  by (simp add: serial_stencil_def)

lemma serial_stencil_value_b:
  "value_b (serial_stencil 3 3 3) = - 4"
  by (simp add: serial_stencil_def laplace3d_stencil_def)

lemma rhs_build:
  assumes pos: "0 < nx" "0 < ny" "0 < nz"
    and cover: "nx \<le> nx_loc (DD L)" "ny \<le> ny_loc (DD L)"
    and len: "nx_loc (DD L) * ny_loc (DD L) * nz \<le> int (length b)"
  shows "\<exists>b1 b2. rhs_forcing L nx ny nz dx dy dz b = Inr b1
    \<and> rhs_dirichlet L nx ny dx dy b1 = Inr b2 \<and>
    (\<forall>i j. 0 \<le> i \<and> i < nx \<and> 0 \<le> j \<and> j < ny \<longrightarrow>
       b1 ! nat (index_c L i j 0) = f (real_of_int i * dx) (real_of_int j * dy) 0 \<and>
       b2 ! nat (index_c L i j 0)
         = f (real_of_int i * dx) (real_of_int j * dy) 0
           - value_b L * g_0 (real_of_int i * dx) (real_of_int j * dy)) \<and>
    (\<forall>i j k. 0 \<le> i \<and> i < nx \<and> 0 \<le> j \<and> j < ny \<and> 0 < k \<and> k < nz \<longrightarrow>
       b2 ! nat (index_c L i j k) = b1 ! nat (index_c L i j k))"
proof -
  obtain b1 where b1: "rhs_forcing L nx ny nz dx dy dz b = Inr b1" "length b1 = length b"
    and e1: "\<And>i j k. 0 \<le> i \<and> i < nx \<and> 0 \<le> j \<and> j < ny \<and> 0 \<le> k \<and> k < nz \<Longrightarrow>
       b1 ! nat (index_c L i j k)
         = f (real_of_int i * dx) (real_of_int j * dy) (real_of_int k * dz)"
    using rhs_forcing_entries[OF cover len, of dx dy dz] by blast
  have len1: "nx_loc (DD L) * ny_loc (DD L) * nz \<le> int (length b1)"
    using len b1(2) by simp
  obtain b2 where b2: "rhs_dirichlet L nx ny dx dy b1 = Inr b2"
    and e2: "\<And>i j. 0 \<le> i \<and> i < nx \<and> 0 \<le> j \<and> j < ny \<Longrightarrow>
       b2 ! nat (index_c L i j 0)
         = b1 ! nat (index_c L i j 0)
           - value_b L * g_0 (real_of_int i * dx) (real_of_int j * dy)"
    and e3: "\<And>i j k. 0 \<le> i \<and> i < nx \<and> 0 \<le> j \<and> j < ny \<and> 0 < k \<and> k < nz \<Longrightarrow>
       b2 ! nat (index_c L i j k) = b1 ! nat (index_c L i j k)"
    using rhs_dirichlet_entries[OF pos cover len1, of dx dy] by blast
  have z: "b1 ! nat (index_c L i j 0) = f (real_of_int i * dx) (real_of_int j * dy) 0"
    if "0 \<le> i \<and> i < nx \<and> 0 \<le> j \<and> j < ny" for i j
    using e1[of i j 0] that pos(3) by simp
  show ?thesis
    using b1(1) b2 z e2 e3 by (intro exI[of _ b1] exI[of _ b2]) simp
qed

lemma serial_grid_3:
  "(3::int) \<le> nx_loc (DD (serial_stencil 3 3 3))"
  "(3::int) \<le> ny_loc (DD (serial_stencil 3 3 3))"
  "nx_loc (DD (serial_stencil 3 3 3)) * ny_loc (DD (serial_stencil 3 3 3)) * 3
     \<le> int (length (init 27 (new_double 27) 0))"
  "index_c (serial_stencil 3 3 3) 0 1 1 = 12"
  "index_c (serial_stencil 3 3 3) 1 1 0 = 4"
  "index_c (serial_stencil 3 3 3) 1 1 2 = 22"
  "index_c (serial_stencil 3 3 3) 2 1 0 = 5"
  by (simp_all add: single_process_def length_init index_c_def)

section \<open>What the loops do in every run that completes\<close>

lemma for_loop_collect:
  assumes step: "\<And>i s s' Q. lo \<le> i \<Longrightarrow> i < hi \<Longrightarrow> I Q s \<Longrightarrow> body i s = Inr s'
                   \<Longrightarrow> I (Q \<union> R i) s'"
    and start: "I Q0 s"
    and run: "for_loop lo hi body s = Inr s'"
  shows "I (Q0 \<union> (\<Union>i\<in>{lo..<hi}. R i)) s'"
  using assms
proof (induction "nat (hi - lo)" arbitrary: lo s Q0)
  case 0
  then have "\<not> lo < hi" by simp
  with "0.prems"(2,3) show ?case by (simp add: for_loop.simps)
next
  case (Suc d)
  then have lt: "lo < hi" by simp
  from Suc.prems(3) lt obtain s1 where s1: "body lo s = Inr s1"
      and rest: "for_loop (lo + 1) hi body s1 = Inr s'"
    by (subst (asm) for_loop.simps) (auto split: sum.splits)
  have d: "d = nat (hi - (lo + 1))" using Suc.hyps(2) by simp
  have a: "I (Q0 \<union> R lo) s1"
    by (rule Suc.prems(1)[where i = lo and s = s]) (use lt Suc.prems(2) s1 in simp_all)
  have "I ((Q0 \<union> R lo) \<union> (\<Union>i\<in>{lo + 1..<hi}. R i)) s'"
  proof (rule Suc.hyps(1)[OF d _ a rest])
    show "I (Q \<union> R i) t'" if "lo + 1 \<le> i" "i < hi" "I Q t" "body i t = Inr t'" for i t t' Q
      by (rule Suc.prems(1)[where i = i and s = t]) (use that in simp_all)
  qed
  moreover have "{lo..<hi} = insert lo {lo + 1..<hi}" using lt by auto
  ultimately show ?case by (simp add: Un_assoc)
qed

lemma store_sampled:
  assumes s: "sampled L dx dy dz P b"
    and st: "store b (index_c L i j k)
           (f (real_of_int i * dx) (real_of_int j * dy) (real_of_int k * dz)) = Inr b'"
  shows "sampled L dx dy dz (insert (i, j, k) P) b'"
proof -
  let ?m = "index_c L i j k"
  from st have inb: "0 \<le> ?m" "?m < int (length b)"
    and b': "b' = b[nat ?m := f (real_of_int i * dx) (real_of_int j * dy) (real_of_int k * dz)]"
    by (auto simp: store_def split: if_splits)
  have len: "length b' = length b" using b' by simp
  have "0 \<le> index_c L a c e \<and> index_c L a c e < int (length b') \<and>
        (\<exists>i' j' k'. (i', j', k') \<in> insert (i, j, k) P \<and>
           index_c L i' j' k' = index_c L a c e \<and>
           b' ! nat (index_c L a c e)
             = f (real_of_int i' * dx) (real_of_int j' * dy) (real_of_int k' * dz))"
    if q: "(a, c, e) \<in> insert (i, j, k) P" for a c e
  proof (cases "index_c L a c e = ?m")
    case True
    then have "b' ! nat (index_c L a c e)
                 = f (real_of_int i * dx) (real_of_int j * dy) (real_of_int k * dz)"
      using inb b' by simp
    with True inb len show ?thesis
      by (intro conjI exI[of _ i] exI[of _ j] exI[of _ k]) simp_all
  next
    case False
    then have qP: "(a, c, e) \<in> P" using q by auto
    from s qP have bq: "0 \<le> index_c L a c e" "index_c L a c e < int (length b)"
      unfolding sampled_def by blast+
    from s qP obtain i' j' k' where w: "(i', j', k') \<in> P"
        "index_c L i' j' k' = index_c L a c e"
        "b ! nat (index_c L a c e)
           = f (real_of_int i' * dx) (real_of_int j' * dy) (real_of_int k' * dz)"
      unfolding sampled_def by blast
    have "nat (index_c L a c e) \<noteq> nat ?m" using False bq inb by simp
    then have "b' ! nat (index_c L a c e) = b ! nat (index_c L a c e)"
      using b' by simp
    with w bq len show ?thesis
      by (intro conjI exI[of _ i'] exI[of _ j'] exI[of _ k']) simp_all
  qed
  then show ?thesis unfolding sampled_def by blast
qed


lemma rhs_forcing_sampled:
  assumes "rhs_forcing L nx ny nz dx dy dz b = Inr b'"
  shows "sampled L dx dy dz
           (\<Union>k\<in>{0..<nz}. \<Union>j\<in>{0..<ny}. \<Union>i\<in>{0..<nx}. {(i, j, k)}) b'"
proof -
  let ?I = "sampled L dx dy dz"
  have row: "?I (Q \<union> (\<Union>i\<in>{0..<nx}. {(i, j, k)})) c'"
    if "?I Q c"
      "for_loop 0 nx (\<lambda>i b.
         let x = real_of_int i * dx; idx = index_c L i j k
         in store b idx (f x (real_of_int j * dy) (real_of_int k * dz))) c = Inr c'"
    for Q c c' j k
  proof (rule for_loop_collect[where I = ?I, OF _ that])
    show "?I (Q' \<union> {(i, j, k)}) t'"
      if "?I Q' t"
        "(let x = real_of_int i * dx; idx = index_c L i j k
          in store t idx (f x (real_of_int j * dy) (real_of_int k * dz))) = Inr t'"
      for i t t' Q'
      using store_sampled[OF that(1), of i j k t'] that(2) by (simp add: Let_def)
  qed
  have plane: "?I (Q \<union> (\<Union>j\<in>{0..<ny}. \<Union>i\<in>{0..<nx}. {(i, j, k)})) c'"
    if "?I Q c"
      "for_loop 0 ny (\<lambda>j b.
         let y = real_of_int j * dy in
         for_loop 0 nx (\<lambda>i b.
           let x = real_of_int i * dx; idx = index_c L i j k
           in store b idx (f x y (real_of_int k * dz))) b) c = Inr c'"
    for Q c c' k
  proof (rule for_loop_collect[where I = ?I, OF _ that])
    show "?I (Q' \<union> (\<Union>i\<in>{0..<nx}. {(i, j, k)})) t'"
      if "?I Q' t"
        "(let y = real_of_int j * dy in
           for_loop 0 nx (\<lambda>i b.
             let x = real_of_int i * dx; idx = index_c L i j k
             in store b idx (f x y (real_of_int k * dz))) t) = Inr t'"
      for j t t' Q'
      using row[OF that(1), of j k t'] that(2) by (simp add: Let_def)
  qed
  have "?I ({} \<union> (\<Union>k\<in>{0..<nz}. \<Union>j\<in>{0..<ny}. \<Union>i\<in>{0..<nx}. {(i, j, k)})) b'"
  proof (rule for_loop_collect[where I = ?I])
    show "?I {} b" by (simp add: sampled_def)
    show "for_loop 0 nz (\<lambda>k b.
      let z = real_of_int k * dz in
      for_loop 0 ny (\<lambda>j b.
        let y = real_of_int j * dy in
        for_loop 0 nx (\<lambda>i b.
          let x = real_of_int i * dx;
              idx = index_c L i j k
          in store b idx (f x y z)) b) b) b = Inr b'"
      using assms by (simp add: rhs_forcing_def)
    show "?I (Q \<union> (\<Union>j\<in>{0..<ny}. \<Union>i\<in>{0..<nx}. {(i, j, k)})) s'"
      if "?I Q s"
        "(let z = real_of_int k * dz in
          for_loop 0 ny (\<lambda>j b.
            let y = real_of_int j * dy in
            for_loop 0 nx (\<lambda>i b.
              let x = real_of_int i * dx;
                  idx = index_c L i j k
              in store b idx (f x y z)) b) s) = Inr s'"
      for k s s' Q
      using plane[OF that(1), of k s'] that(2) by (simp add: Let_def)
  qed
  then show ?thesis by simp
qed

lemma sampledD:
  assumes "sampled L dx dy dz P b" "(i, j, k) \<in> P"
  shows "0 \<le> index_c L i j k" "index_c L i j k < int (length b)"
    "\<exists>i' j' k'. (i', j', k') \<in> P \<and>
       index_c L i' j' k' = index_c L i j k \<and>
       b ! nat (index_c L i j k)
         = f (real_of_int i' * dx) (real_of_int j' * dy) (real_of_int k' * dz)"
  using assms unfolding sampled_def by blast+

lemma rhs_forcing_samples:
  assumes "rhs_forcing L nx ny nz dx dy dz b = Inr b'"
    and "0 \<le> i" "i < nx" "0 \<le> j" "j < ny" "0 \<le> k" "k < nz"
  shows "0 \<le> index_c L i j k \<and> index_c L i j k < int (length b') \<and>
    (\<exists>i' j' k'. 0 \<le> i' \<and> i' < nx \<and> 0 \<le> j' \<and> j' < ny \<and> 0 \<le> k' \<and> k' < nz \<and>
       index_c L i' j' k' = index_c L i j k \<and>
       b' ! nat (index_c L i j k)
         = f (real_of_int i' * dx) (real_of_int j' * dy) (real_of_int k' * dz))"
proof -
  define P where "P = (\<Union>k\<in>{0..<nz}. \<Union>j\<in>{0..<ny}. \<Union>i\<in>{0..<nx}. {(i, j, k)})"
  have s: "sampled L dx dy dz P b'"
    unfolding P_def by (rule rhs_forcing_sampled[OF assms(1)])
  have mem: "(i, j, k) \<in> P" using assms(2-) by (simp add: P_def)
  obtain i' j' k' where w: "(i', j', k') \<in> P"
      "index_c L i' j' k' = index_c L i j k"
      "b' ! nat (index_c L i j k)
         = f (real_of_int i' * dx) (real_of_int j' * dy) (real_of_int k' * dz)"
    using sampledD(3)[OF s mem] by blast
  from w(1) have "0 \<le> i' \<and> i' < nx \<and> 0 \<le> j' \<and> j' < ny \<and> 0 \<le> k' \<and> k' < nz"
    by (simp add: P_def)
  with sampledD(1,2)[OF s mem] w(2,3) show ?thesis by blast
qed

lemma fold_step_untouched:
  assumes u: "untouched L b0 P b"
    and st: "(case load b (index_c L i j 0) of
               Inl e \<Rightarrow> Inl e
             | Inr v \<Rightarrow> store b (index_c L i j 0) (v - c)) = Inr b'"
  shows "untouched L b0 (insert (i, j) P) b'"
proof -
  let ?p = "index_c L i j 0"
  from st have inb: "0 \<le> ?p" "?p < int (length b)"
    and b': "b' = b[nat ?p := b ! nat ?p - c]"
    by (auto simp: load_def store_def split: if_splits)
  have len: "length b' = length b0" using b' u by (simp add: untouched_def)
  have "b' ! nat m = b0 ! nat m"
    if m: "0 \<le> m" "m < int (length b0)"
      and away: "\<forall>i' j'. (i', j') \<in> insert (i, j) P \<longrightarrow> index_c L i' j' 0 \<noteq> m" for m
  proof -
    from away have "?p \<noteq> m" by blast
    then have "nat m \<noteq> nat ?p" using m(1) inb(1) by simp
    then have "b' ! nat m = b ! nat m" using b' by simp
    moreover from away have "\<forall>i' j'. (i', j') \<in> P \<longrightarrow> index_c L i' j' 0 \<noteq> m" by blast
    then have "b ! nat m = b0 ! nat m" using u m unfolding untouched_def by blast
    ultimately show ?thesis by simp
  qed
  with len show ?thesis unfolding untouched_def by blast
qed

lemma rhs_dirichlet_untouched:
  assumes "rhs_dirichlet L nx ny dx dy b = Inr b'"
  shows "untouched L b (\<Union>j\<in>{0..<ny}. \<Union>i\<in>{0..<nx}. {(i, j)}) b'"
proof -
  let ?I = "untouched L b"
  have row: "?I (Q \<union> (\<Union>i\<in>{0..<nx}. {(i, j)})) c'"
    if "?I Q c"
      "for_loop 0 nx (\<lambda>i b.
         case load b (index_c L i j 0) of
           Inl e \<Rightarrow> Inl e
         | Inr v \<Rightarrow> store b (index_c L i j 0)
             (v - value_b L * g_0 (real_of_int i * dx) (real_of_int j * dy))) c = Inr c'"
    for Q c c' j
  proof (rule for_loop_collect[where I = ?I, OF _ that])
    show "?I (Q' \<union> {(i, j)}) t'"
      if "?I Q' t"
        "(case load t (index_c L i j 0) of
           Inl e \<Rightarrow> Inl e
         | Inr v \<Rightarrow> store t (index_c L i j 0)
             (v - value_b L * g_0 (real_of_int i * dx) (real_of_int j * dy))) = Inr t'"
      for i t t' Q'
      using fold_step_untouched[OF that] by simp
  qed
  have "?I ({} \<union> (\<Union>j\<in>{0..<ny}. \<Union>i\<in>{0..<nx}. {(i, j)})) b'"
  proof (rule for_loop_collect[where I = ?I])
    show "?I {} b" by (simp add: untouched_def)
    show "for_loop 0 ny (\<lambda>j b.
      for_loop 0 nx (\<lambda>i b.
        case load b (index_c L i j 0) of
          Inl e \<Rightarrow> Inl e
        | Inr v \<Rightarrow> store b (index_c L i j 0)
                    (v - value_b L * g_0 (real_of_int i * dx) (real_of_int j * dy))) b) b = Inr b'"
      using assms by (simp add: rhs_dirichlet_def)
    show "?I (Q \<union> (\<Union>i\<in>{0..<nx}. {(i, j)})) s'"
      if "?I Q s"
        "for_loop 0 nx (\<lambda>i b.
          case load b (index_c L i j 0) of
            Inl e \<Rightarrow> Inl e
          | Inr v \<Rightarrow> store b (index_c L i j 0)
                    (v - value_b L * g_0 (real_of_int i * dx) (real_of_int j * dy))) s = Inr s'"
      for j s s' Q
      by (rule row[OF that])
  qed
  then show ?thesis by simp
qed

lemma rhs_dirichlet_writes_face_only:
  assumes "rhs_dirichlet L nx ny dx dy b = Inr b'"
  shows "length b' = length b \<and>
    (\<forall>m. 0 \<le> m \<and> m < int (length b) \<and>
         (\<forall>i j. 0 \<le> i \<and> i < nx \<and> 0 \<le> j \<and> j < ny \<longrightarrow> index_c L i j 0 \<noteq> m)
       \<longrightarrow> b' ! nat m = b ! nat m)"
proof -
  define P :: "(int \<times> int) set" where "P = (\<Union>j\<in>{0..<ny}. \<Union>i\<in>{0..<nx}. {(i, j)})"
  have u: "untouched L b P b'"
    unfolding P_def by (rule rhs_dirichlet_untouched[OF assms])
  have P: "(i, j) \<in> P \<longleftrightarrow> 0 \<le> i \<and> i < nx \<and> 0 \<le> j \<and> j < ny" for i j
    by (auto simp: P_def)
  show ?thesis using u unfolding untouched_def P by blast
qed

section \<open>Evaluation in binary64\<close>

lemmas b64 = binary64_def exponent_def exponent_down.simps exponent_up.simps pow2_def
  round_to_even_def Let_def

lemma exponent_1_49: "exponent (1 / 49) = - 6"
  by (simp add: exponent_def exponent_down.simps pow2_def)

lemma spacing_double_50: "spacing_double 50 = 5882252574524729 / 2 ^ 58"
  by (simp add: spacing_double_def binary64_def exponent_1_49 pow2_def round_to_even_def Let_def)

lemma exponent_1_2: "exponent (1 / 2) = - 1"
  by (simp add: exponent_def exponent_down.simps pow2_def)

lemma spacing_double_3: "spacing_double 3 = 1 / 2"
  by (simp add: spacing_double_def binary64_def exponent_1_2 pow2_def round_to_even_def Let_def)


lemma exponent_below_1: "exponent (1 - 1 / 2 ^ 53) = - 1"
  by (simp add: exponent_def exponent_down.simps pow2_def)

lemma last_x_double_50: "binary64 (real_of_int 49 * spacing_double 50) = 1 - 1 / 2 ^ 53"
  by (simp add: spacing_double_50 binary64_def exponent_below_1 exponent_def exponent_down.simps pow2_def round_to_even_def Let_def)



lemma middle_y_double_3: "binary64 (real_of_int 1 * spacing_double 3) = 1 / 2"
  by (simp add: spacing_double_3 b64)

lemma binary64_step1: "binary64 (1 - (1 - 1 / 2 ^ 53)) = 1 / 2 ^ 53"
  by (simp add: b64)

lemma binary64_step2: "binary64 ((1 - 1 / 2 ^ 53) * (1 / 2 ^ 53)) = (2 ^ 53 - 1) / 2 ^ 106"
  by (simp add: b64)

lemma binary64_step3: "binary64 ((2 ^ 53 - 1) / 2 ^ 106 * (1 / 2)) = (2 ^ 53 - 1) / 2 ^ 107"
  by (simp add: b64)

lemma binary64_step4: "binary64 (1 - 1 / 2) = 1 / 2"
  by (simp add: b64)

lemma binary64_step5: "binary64 ((2 ^ 53 - 1) / 2 ^ 107 * (1 / 2)) = (2 ^ 53 - 1) / 2 ^ 108"
  by (simp add: b64)


lemma g_0_double_edge: "g_0_double (1 - 1 / 2 ^ 53) (1 / 2) = (2 ^ 53 - 1) / 2 ^ 108"
  unfolding g_0_double_def binary64_step1 binary64_step2 binary64_step3 binary64_step4 binary64_step5 by (rule refl)

lemma binary64_step8: "binary64 (1 / 2 * (1 / 2)) = 1 / 4"
  by (simp add: b64)

lemma binary64_step9: "binary64 (- 1 / (1 / 4)) = - 4"
  by (simp add: b64)

lemma value_b_double_3: "value_b_double 3 = - 4"
  unfolding value_b_double_def Let_def spacing_double_3 binary64_step8 binary64_step9 by (rule refl)

lemma binary64_step6: "binary64 (- 4 * ((2 ^ 53 - 1) / 2 ^ 108)) = - ((2 ^ 53 - 1) / 2 ^ 106)"
  by (simp add: b64)

lemma binary64_step7: "binary64 (0 - - ((2 ^ 53 - 1) / 2 ^ 106)) = (2 ^ 53 - 1) / 2 ^ 106"
  by (simp add: b64)

lemma fold_double_edge: "fold_double 50 3 3 49 1 0 = (2 ^ 53 - 1) / 2 ^ 106"
  unfolding fold_double_def Let_def last_x_double_50 middle_y_double_3 value_b_double_3 g_0_double_edge binary64_step6 binary64_step7 by (rule refl)

section \<open>Range of the parsed arguments\<close>

lemma atoi_range: "- 2147483648 \<le> atoi s \<and> atoi s \<le> 2147483647"
proof -
  have "0 \<le> (strtol s + 2147483648) mod 4294967296"
    and "(strtol s + 2147483648) mod 4294967296 < 4294967296"
    by simp_all
  then show ?thesis by (simp add: atoi_def int_of_long_def)
qed

section \<open>The stencil\<close>

text \<open>
  C2: for all extents of at least 3, \<open>laplace3d_stencil\<close> returns a stencil whose centre
  coefficient is \<open>2/dx\<^sup>2 + 2/dy\<^sup>2 + 2/dz\<^sup>2\<close> with \<open>dx = 1/(nx-1)\<close>, \<open>dy = 1/(ny-1)\<close>,
  \<open>dz = 1/(nz-1)\<close>; the centre coefficient is strictly positive and the six off-diagonal
  coefficients are strictly negative.
\<close>

theorem laplace3d_stencil_coefficients:
  assumes "3 \<le> nx" "3 \<le> ny" "3 \<le> nz"
  shows "\<exists>L. laplace3d_stencil nx ny nz = Inr L
    \<and> value_c L = 2 / (1 / real_of_int (nx - 1))\<^sup>2 + 2 / (1 / real_of_int (ny - 1))\<^sup>2
                  + 2 / (1 / real_of_int (nz - 1))\<^sup>2
    \<and> 0 < value_c L
    \<and> value_n L < 0 \<and> value_s L < 0 \<and> value_e L < 0 \<and> value_w L < 0
    \<and> value_t L < 0 \<and> value_b L < 0"
proof -
  have px: "0 < real_of_int (nx - 1)" and py: "0 < real_of_int (ny - 1)"
    and pz: "0 < real_of_int (nz - 1)"
    using assms by simp_all
  show ?thesis
    using assms px py pz
    by (simp add: laplace3d_stencil_def Let_def power2_eq_square add_pos_pos)
qed

theorem laplace3d_stencil_coefficients_witness:
  "(3::int) \<le> 3 \<and> (3::int) \<le> 4 \<and> (3::int) \<le> 5 \<and>
   (\<exists>L. laplace3d_stencil 3 4 5 = Inr L \<and> value_c L = 58 \<and> 0 < value_c L
      \<and> value_n L = - 9 \<and> value_s L = - 9 \<and> value_e L = - 4 \<and> value_w L = - 4
      \<and> value_t L = - 16 \<and> value_b L = - 16)"
  using laplace3d_stencil_coefficients [of 3 4 5]
  by (simp add: laplace3d_stencil_def)

text \<open>
  C3: for all extents of at least 3, the off-diagonal coefficients of the stencil are
  equal in opposite pairs: north and south, east and west, top and bottom.
\<close>

theorem laplace3d_stencil_symmetric:
  assumes "3 \<le> nx" "3 \<le> ny" "3 \<le> nz"
  shows "\<exists>L. laplace3d_stencil nx ny nz = Inr L
    \<and> value_n L = value_s L \<and> value_e L = value_w L \<and> value_t L = value_b L"
  using assms by (simp add: laplace3d_stencil_def Let_def)

theorem laplace3d_stencil_symmetric_witness:
  "(3::int) \<le> 3 \<and> (3::int) \<le> 4 \<and> (3::int) \<le> 5 \<and>
   (\<exists>L. laplace3d_stencil 3 4 5 = Inr L
      \<and> value_n L = value_s L \<and> value_e L = value_w L \<and> value_t L = value_b L)"
  using laplace3d_stencil_symmetric [of 3 4 5]
  by simp

section \<open>Boundary value and forcing term\<close>

text \<open>
  C6: for all reals \<open>x\<close> and \<open>y\<close>, the boundary-value function \<open>g_0\<close> returns
  \<open>x(1-x)y(1-y)\<close>.
\<close>

theorem g_0_value: "g_0 x y = x * (1 - x) * y * (1 - y)"
  by (simp add: g_0_def)

section \<open>The right-hand side\<close>

text \<open>
  The loops of \<open>main\<close> range over the global extents and index the array through the
  stencil. They stay inside the array and keep the grid points apart when the block of
  the decomposition spans the grid in \<open>x\<close> and \<open>y\<close> (\<open>nx \<le> nx_loc\<close>, \<open>ny \<le> ny_loc\<close>, as with
  a single process) and the array holds \<open>nx_loc * ny_loc * nz\<close> entries. In other runs
  an access may leave the array, which ends the run, or two grid points may share an
  entry.
\<close>

text \<open>
  C4: the right-hand side is initialised by evaluating \<open>f\<close> at every grid point, the
  points on the boundary of the grid included. In every run in which the loops complete,
  the entry of every grid point \<open>(i,j,k)\<close> with \<open>0 \<le> i < nx\<close>, \<open>0 \<le> j < ny\<close>, \<open>0 \<le> k < nz\<close>
  lies in the array and holds a sample of \<open>f\<close>, taken at a grid point with the same
  linear index. Where \<open>nx \<le> nx_loc\<close>, \<open>ny \<le> ny_loc\<close> and the array holds
  \<open>nx_loc * ny_loc * nz\<close> entries, the loops complete and the entry of \<open>(i,j,k)\<close> is
  \<open>f(i*dx, j*dy, k*dz)\<close>.
\<close>

theorem forcing_sampled_at_every_grid_point:
  "(rhs_forcing L nx ny nz dx dy dz b = Inr b' \<longrightarrow>
      (\<forall>i j k. 0 \<le> i \<and> i < nx \<and> 0 \<le> j \<and> j < ny \<and> 0 \<le> k \<and> k < nz \<longrightarrow>
         0 \<le> index_c L i j k \<and> index_c L i j k < int (length b') \<and>
         (\<exists>i' j' k'. 0 \<le> i' \<and> i' < nx \<and> 0 \<le> j' \<and> j' < ny \<and> 0 \<le> k' \<and> k' < nz \<and>
            index_c L i' j' k' = index_c L i j k \<and>
            b' ! nat (index_c L i j k)
              = f (real_of_int i' * dx) (real_of_int j' * dy) (real_of_int k' * dz)))) \<and>
   (nx \<le> nx_loc (DD L) \<and> ny \<le> ny_loc (DD L) \<and>
    nx_loc (DD L) * ny_loc (DD L) * nz \<le> int (length b) \<longrightarrow>
      (\<exists>b1. rhs_forcing L nx ny nz dx dy dz b = Inr b1 \<and> length b1 = length b \<and>
         (\<forall>i j k. 0 \<le> i \<and> i < nx \<and> 0 \<le> j \<and> j < ny \<and> 0 \<le> k \<and> k < nz \<longrightarrow>
            b1 ! nat (index_c L i j k)
              = f (real_of_int i * dx) (real_of_int j * dy) (real_of_int k * dz))))"
proof (rule conjI)
  show "rhs_forcing L nx ny nz dx dy dz b = Inr b' \<longrightarrow>
      (\<forall>i j k. 0 \<le> i \<and> i < nx \<and> 0 \<le> j \<and> j < ny \<and> 0 \<le> k \<and> k < nz \<longrightarrow>
         0 \<le> index_c L i j k \<and> index_c L i j k < int (length b') \<and>
         (\<exists>i' j' k'. 0 \<le> i' \<and> i' < nx \<and> 0 \<le> j' \<and> j' < ny \<and> 0 \<le> k' \<and> k' < nz \<and>
            index_c L i' j' k' = index_c L i j k \<and>
            b' ! nat (index_c L i j k)
              = f (real_of_int i' * dx) (real_of_int j' * dy) (real_of_int k' * dz)))"
  proof (intro impI allI)
    fix i j k
    assume "rhs_forcing L nx ny nz dx dy dz b = Inr b'"
      and "0 \<le> i \<and> i < nx \<and> 0 \<le> j \<and> j < ny \<and> 0 \<le> k \<and> k < nz"
    then show "0 \<le> index_c L i j k \<and> index_c L i j k < int (length b') \<and>
         (\<exists>i' j' k'. 0 \<le> i' \<and> i' < nx \<and> 0 \<le> j' \<and> j' < ny \<and> 0 \<le> k' \<and> k' < nz \<and>
            index_c L i' j' k' = index_c L i j k \<and>
            b' ! nat (index_c L i j k)
              = f (real_of_int i' * dx) (real_of_int j' * dy) (real_of_int k' * dz))"
      using rhs_forcing_samples[of L nx ny nz dx dy dz b b' i j k] by simp
  qed
  show "nx \<le> nx_loc (DD L) \<and> ny \<le> ny_loc (DD L) \<and>
    nx_loc (DD L) * ny_loc (DD L) * nz \<le> int (length b) \<longrightarrow>
      (\<exists>b1. rhs_forcing L nx ny nz dx dy dz b = Inr b1 \<and> length b1 = length b \<and>
         (\<forall>i j k. 0 \<le> i \<and> i < nx \<and> 0 \<le> j \<and> j < ny \<and> 0 \<le> k \<and> k < nz \<longrightarrow>
            b1 ! nat (index_c L i j k)
              = f (real_of_int i * dx) (real_of_int j * dy) (real_of_int k * dz)))"
    using rhs_forcing_entries[of nx L ny nz b dx dy dz] by simp
qed

theorem forcing_sampled_at_every_grid_point_witness:
  "nx_loc (DD (serial_stencil 3 3 3)) = 3 \<and> ny_loc (DD (serial_stencil 3 3 3)) = 3 \<and>
   length (init 27 (new_double 27) 0) = 27 \<and>
   (\<exists>b'. rhs_forcing (serial_stencil 3 3 3) 3 3 3 (1 / 2) (1 / 2) (1 / 2)
            (init 27 (new_double 27) 0) = Inr b' \<and>
         b' ! 12 = 1 \<and> b' ! 4 = 0 \<and> b' ! 22 = 8 \<and>
         index_c (serial_stencil 3 3 3) 0 1 1 < int (length b'))"
proof -
  have h: "3 \<le> nx_loc (DD (serial_stencil 3 3 3)) \<and> 3 \<le> ny_loc (DD (serial_stencil 3 3 3)) \<and>
      nx_loc (DD (serial_stencil 3 3 3)) * ny_loc (DD (serial_stencil 3 3 3)) * 3
        \<le> int (length (init 27 (new_double 27) 0))"
    by (simp add: single_process_def length_init)
  obtain b' where b': "rhs_forcing (serial_stencil 3 3 3) 3 3 3 (1 / 2) (1 / 2) (1 / 2)
            (init 27 (new_double 27) 0) = Inr b'"
    and e: "\<And>i j k. 0 \<le> i \<and> i < 3 \<and> 0 \<le> j \<and> j < 3 \<and> 0 \<le> k \<and> k < 3 \<Longrightarrow>
       b' ! nat (index_c (serial_stencil 3 3 3) i j k)
         = f (real_of_int i * (1 / 2)) (real_of_int j * (1 / 2)) (real_of_int k * (1 / 2))"
    using forcing_sampled_at_every_grid_point
            [where L = "serial_stencil 3 3 3" and nx = 3 and ny = 3 and nz = 3
               and dx = "1 / 2" and dy = "1 / 2" and dz = "1 / 2"
               and b = "init 27 (new_double 27) 0"] h
    by blast
  have inb: "index_c (serial_stencil 3 3 3) 0 1 1 < int (length b')"
    using forcing_sampled_at_every_grid_point
            [where L = "serial_stencil 3 3 3" and nx = 3 and ny = 3 and nz = 3
               and dx = "1 / 2" and dy = "1 / 2" and dz = "1 / 2"
               and b = "init 27 (new_double 27) 0" and b' = b'] b'
    by simp
  have "b' ! 12 = 1" using e[of 0 1 1] by (simp add: serial_grid_3 f_def)
  moreover have "b' ! 4 = 0" using e[of 1 1 0] by (simp add: serial_grid_3 f_def)
  moreover have "b' ! 22 = 8" using e[of 1 1 2] by (simp add: serial_grid_3 f_def)
  ultimately show ?thesis
    using b' inb by (simp add: single_process_def length_init)
qed

text \<open>
  C4, as it was stated (no entry of a boundary point is a sample of \<open>f\<close>), fails on
  the \<open>3 \<times> 3 \<times> 3\<close> grid at the point \<open>(0,1,1)\<close> of the face \<open>x = 0\<close>: the initialisation
  succeeds, the entry of that point has index 12 and held 0 before, and after the loops
  it is \<open>f(0, 1/2, 1/2) = 1\<close>.
\<close>

theorem forcing_sampled_on_boundary:
  "\<not> isl (rhs_forcing (serial_stencil 3 3 3) 3 3 3 (1 / 2) (1 / 2) (1 / 2)
            (init 27 (new_double 27) 0)) \<and>
   index_c (serial_stencil 3 3 3) 0 1 1 = 12 \<and>
   init 27 (new_double 27) 0 ! 12 = 0 \<and>
   projr (rhs_forcing (serial_stencil 3 3 3) 3 3 3 (1 / 2) (1 / 2) (1 / 2)
            (init 27 (new_double 27) 0)) ! 12 = f 0 (1 / 2) (1 / 2) \<and>
   f 0 (1 / 2) (1 / 2) = 1"
proof -
  obtain b' where b': "rhs_forcing (serial_stencil 3 3 3) 3 3 3 (1 / 2) (1 / 2) (1 / 2)
            (init 27 (new_double 27) 0) = Inr b'"
    and e: "\<And>i j k. 0 \<le> i \<and> i < 3 \<and> 0 \<le> j \<and> j < 3 \<and> 0 \<le> k \<and> k < 3 \<Longrightarrow>
       b' ! nat (index_c (serial_stencil 3 3 3) i j k)
         = f (real_of_int i * (1 / 2)) (real_of_int j * (1 / 2)) (real_of_int k * (1 / 2))"
    using rhs_forcing_entries[OF serial_grid_3(1,2,3), of "1 / 2" "1 / 2" "1 / 2"] by blast
  have "b' ! 12 = f 0 (1 / 2) (1 / 2)"
    using e[of 0 1 1] by (simp add: serial_grid_3(4))
  moreover have "f 0 (1 / 2) (1 / 2) = 1" by (simp add: f_def)
  moreover have "init 27 (new_double 27) 0 ! 12 = 0"
    by (simp add: init_def new_double_def)
  ultimately show ?thesis using b' by (simp add: serial_grid_3(4))
qed

text \<open>
  C5: the fold of the Dirichlet values writes the entries of the face \<open>z = 0\<close> and no
  others. In every run in which the fold completes, every position of the array that is
  not the linear index of a point \<open>(i,j,0)\<close> keeps its value. Where the extents are
  positive (in \<open>main\<close> they are at least 3 at that point), \<open>nx \<le> nx_loc\<close>, \<open>ny \<le> ny_loc\<close>
  and the array holds \<open>nx_loc * ny_loc * nz\<close> entries, both loops complete,
  the entry of every \<open>(i,j,0)\<close>, the edges of the face included, holds its forcing value
  \<open>f(i*dx, j*dy, 0)\<close> before the fold and that value minus \<open>value_b * g_0(i*dx, j*dy)\<close>
  after it, and no entry with \<open>k > 0\<close> is changed: the face \<open>z = 1\<close> and the part
  \<open>k > 0\<close> of the four other faces keep their values.
\<close>

theorem dirichlet_fold_frame:
  "(rhs_dirichlet L nx ny dx dy b1 = Inr b2 \<longrightarrow>
      length b2 = length b1 \<and>
      (\<forall>m. 0 \<le> m \<and> m < int (length b1) \<and>
           (\<forall>i j. 0 \<le> i \<and> i < nx \<and> 0 \<le> j \<and> j < ny \<longrightarrow> index_c L i j 0 \<noteq> m)
         \<longrightarrow> b2 ! nat m = b1 ! nat m)) \<and>
   (0 < nx \<and> 0 < ny \<and> 0 < nz \<and> nx \<le> nx_loc (DD L) \<and> ny \<le> ny_loc (DD L) \<and>
    nx_loc (DD L) * ny_loc (DD L) * nz \<le> int (length b) \<longrightarrow>
      (\<exists>c1 c2. rhs_forcing L nx ny nz dx dy dz b = Inr c1
         \<and> rhs_dirichlet L nx ny dx dy c1 = Inr c2 \<and>
         (\<forall>i j. 0 \<le> i \<and> i < nx \<and> 0 \<le> j \<and> j < ny \<longrightarrow>
            c1 ! nat (index_c L i j 0) = f (real_of_int i * dx) (real_of_int j * dy) 0 \<and>
            c2 ! nat (index_c L i j 0)
              = f (real_of_int i * dx) (real_of_int j * dy) 0
                - value_b L * g_0 (real_of_int i * dx) (real_of_int j * dy)) \<and>
         (\<forall>i j k. 0 \<le> i \<and> i < nx \<and> 0 \<le> j \<and> j < ny \<and> 0 < k \<and> k < nz \<longrightarrow>
            c2 ! nat (index_c L i j k) = c1 ! nat (index_c L i j k))))"
proof (rule conjI)
  show "rhs_dirichlet L nx ny dx dy b1 = Inr b2 \<longrightarrow>
      length b2 = length b1 \<and>
      (\<forall>m. 0 \<le> m \<and> m < int (length b1) \<and>
           (\<forall>i j. 0 \<le> i \<and> i < nx \<and> 0 \<le> j \<and> j < ny \<longrightarrow> index_c L i j 0 \<noteq> m)
         \<longrightarrow> b2 ! nat m = b1 ! nat m)"
    using rhs_dirichlet_writes_face_only[of L nx ny dx dy b1 b2] by (rule impI)
  show "0 < nx \<and> 0 < ny \<and> 0 < nz \<and> nx \<le> nx_loc (DD L) \<and> ny \<le> ny_loc (DD L) \<and>
    nx_loc (DD L) * ny_loc (DD L) * nz \<le> int (length b) \<longrightarrow>
      (\<exists>c1 c2. rhs_forcing L nx ny nz dx dy dz b = Inr c1
         \<and> rhs_dirichlet L nx ny dx dy c1 = Inr c2 \<and>
         (\<forall>i j. 0 \<le> i \<and> i < nx \<and> 0 \<le> j \<and> j < ny \<longrightarrow>
            c1 ! nat (index_c L i j 0) = f (real_of_int i * dx) (real_of_int j * dy) 0 \<and>
            c2 ! nat (index_c L i j 0)
              = f (real_of_int i * dx) (real_of_int j * dy) 0
                - value_b L * g_0 (real_of_int i * dx) (real_of_int j * dy)) \<and>
         (\<forall>i j k. 0 \<le> i \<and> i < nx \<and> 0 \<le> j \<and> j < ny \<and> 0 < k \<and> k < nz \<longrightarrow>
            c2 ! nat (index_c L i j k) = c1 ! nat (index_c L i j k)))"
    by (rule impI, rule rhs_build) simp_all
qed


theorem dirichlet_fold_frame_witness:
  "nx_loc (DD (serial_stencil 3 3 3)) = 3 \<and> ny_loc (DD (serial_stencil 3 3 3)) = 3 \<and>
   length (init 27 (new_double 27) 0) = 27 \<and>
   (\<exists>c1 c2.
      rhs_forcing (serial_stencil 3 3 3) 3 3 3 (1 / 2) (1 / 2) (1 / 2)
        (init 27 (new_double 27) 0) = Inr c1 \<and>
      rhs_dirichlet (serial_stencil 3 3 3) 3 3 (1 / 2) (1 / 2) c1 = Inr c2 \<and>
      length c2 = length c1 \<and>
      c1 ! 4 = 0 \<and> c2 ! 4 = 1 / 4 \<and> c2 ! 13 = c1 ! 13 \<and> c2 ! 22 = c1 ! 22)"
proof -
  have h: "(0::int) < 3 \<and> (0::int) < 3 \<and> (0::int) < 3 \<and>
      3 \<le> nx_loc (DD (serial_stencil 3 3 3)) \<and> 3 \<le> ny_loc (DD (serial_stencil 3 3 3)) \<and>
      nx_loc (DD (serial_stencil 3 3 3)) * ny_loc (DD (serial_stencil 3 3 3)) * 3
        \<le> int (length (init 27 (new_double 27) 0))"
    by (simp add: single_process_def length_init)
  obtain c1 c2 where r: "rhs_forcing (serial_stencil 3 3 3) 3 3 3 (1 / 2) (1 / 2) (1 / 2)
        (init 27 (new_double 27) 0) = Inr c1"
      "rhs_dirichlet (serial_stencil 3 3 3) 3 3 (1 / 2) (1 / 2) c1 = Inr c2"
    and face: "\<And>i j. 0 \<le> i \<and> i < 3 \<and> 0 \<le> j \<and> j < 3 \<Longrightarrow>
       c1 ! nat (index_c (serial_stencil 3 3 3) i j 0)
         = f (real_of_int i * (1 / 2)) (real_of_int j * (1 / 2)) 0 \<and>
       c2 ! nat (index_c (serial_stencil 3 3 3) i j 0)
         = f (real_of_int i * (1 / 2)) (real_of_int j * (1 / 2)) 0
           - value_b (serial_stencil 3 3 3)
             * g_0 (real_of_int i * (1 / 2)) (real_of_int j * (1 / 2))"
    and above: "\<And>i j k. 0 \<le> i \<and> i < 3 \<and> 0 \<le> j \<and> j < 3 \<and> 0 < k \<and> k < 3 \<Longrightarrow>
       c2 ! nat (index_c (serial_stencil 3 3 3) i j k)
         = c1 ! nat (index_c (serial_stencil 3 3 3) i j k)"
    using dirichlet_fold_frame
            [where L = "serial_stencil 3 3 3" and nx = 3 and ny = 3 and nz = 3
               and dx = "1 / 2" and dy = "1 / 2" and dz = "1 / 2"
               and b = "init 27 (new_double 27) 0"] h
    by blast
  have frame: "length c2 = length c1 \<and>
      (\<forall>m. 0 \<le> m \<and> m < int (length c1) \<and>
           (\<forall>i j. 0 \<le> i \<and> i < 3 \<and> 0 \<le> j \<and> j < 3 \<longrightarrow>
              index_c (serial_stencil 3 3 3) i j 0 \<noteq> m)
         \<longrightarrow> c2 ! nat m = c1 ! nat m)"
    using dirichlet_fold_frame
            [where L = "serial_stencil 3 3 3" and nx = 3 and ny = 3
               and dx = "1 / 2" and dy = "1 / 2" and ?b1.0 = c1 and ?b2.0 = c2] r(2)
    by blast
  have len1: "length c1 = 27"
    using rhs_forcing_entries
            [where L = "serial_stencil 3 3 3" and nx = 3 and ny = 3 and nz = 3
               and dx = "1 / 2" and dy = "1 / 2" and dz = "1 / 2"
               and b = "init 27 (new_double 27) 0"] h r(1)
    by (auto simp: length_init)
  have away: "\<forall>i j. 0 \<le> i \<and> i < 3 \<and> 0 \<le> j \<and> j < 3 \<longrightarrow>
      index_c (serial_stencil 3 3 3) i j 0 \<noteq> 22"
    by (auto simp: index_c_def single_process_def)
  from frame have fr: "c2 ! nat m = c1 ! nat m"
    if "0 \<le> m" "m < int (length c1)"
      "\<forall>i j. 0 \<le> i \<and> i < 3 \<and> 0 \<le> j \<and> j < 3 \<longrightarrow>
         index_c (serial_stencil 3 3 3) i j 0 \<noteq> m" for m
    using that by blast
  have "c2 ! nat 22 = c1 ! nat 22"
    by (rule fr) (use away len1 in simp_all)
  then have a22: "c2 ! 22 = c1 ! 22" by simp
  have "c1 ! 4 = 0" "c2 ! 4 = 1 / 4"
    using face[of 1 1]
    by (simp_all add: serial_grid_3 serial_stencil_value_b f_def g_0_def)
  moreover have "c2 ! 13 = c1 ! 13"
    using above[of 1 1 1] by (simp add: index_c_def single_process_def)
  ultimately show ?thesis
    using r a22 frame by (simp add: single_process_def length_init)
qed

text \<open>
  C5, as it was stated (the entries of every other boundary face are left unchanged),
  fails in binary64 on the \<open>50 \<times> 3 \<times> 3\<close> grid at the point \<open>(49,1,0)\<close> of the face
  \<open>x = 1\<close>: the spacing \<open>1.0/49\<close> is rounded, \<open>49*dx\<close> is \<open>1 - 1/2^53\<close> and not \<open>1\<close>, so
  \<open>g_0\<close> does not vanish there, and the fold changes the entry, which held the forcing
  value 0, to \<open>(2^53 - 1) / 2^106\<close>, about \<open>1.1e-16\<close>.
\<close>

theorem dirichlet_fold_changes_edge_entry:
  "spacing_double 50 = 5882252574524729 / 2 ^ 58 \<and>
   binary64 (real_of_int 49 * spacing_double 50) = 1 - 1 / 2 ^ 53 \<and>
   binary64 (real_of_int 1 * spacing_double 3) = 1 / 2 \<and>
   g_0_double (binary64 (real_of_int 49 * spacing_double 50))
              (binary64 (real_of_int 1 * spacing_double 3)) = (2 ^ 53 - 1) / 2 ^ 108 \<and>
   value_b_double 3 = - 4 \<and>
   fold_double 50 3 3 49 1 0 = (2 ^ 53 - 1) / 2 ^ 106 \<and>
   0 < fold_double 50 3 3 49 1 0"
proof -
  have "g_0_double (binary64 (real_of_int 49 * spacing_double 50))
              (binary64 (real_of_int 1 * spacing_double 3)) = (2 ^ 53 - 1) / 2 ^ 108"
    unfolding last_x_double_50 middle_y_double_3 by (rule g_0_double_edge)
  moreover have "(0::real) < (2 ^ 53 - 1) / 2 ^ 106" by simp
  ultimately show ?thesis
    using spacing_double_50 last_x_double_50 middle_y_double_3 value_b_double_3
      fold_double_edge
    by (simp only: simp_thms)
qed

text \<open>
  C8: \<open>f(x, y, 0) = 0\<close> for all reals \<open>x\<close> and \<open>y\<close>, so that after the fold the entry of
  \<open>(i,j,0)\<close> is exactly the folded boundary term \<open>- value_b * g_0(i*dx, j*dy)\<close>.
\<close>

theorem forcing_vanishes_at_z0:
  "f x y 0 = 0 \<and>
   (0 < nx \<and> 0 < ny \<and> 0 < nz \<and> nx \<le> nx_loc (DD L) \<and> ny \<le> ny_loc (DD L) \<and>
    nx_loc (DD L) * ny_loc (DD L) * nz \<le> int (length b) \<longrightarrow>
    (\<exists>b1 b2. rhs_forcing L nx ny nz dx dy dz b = Inr b1
       \<and> rhs_dirichlet L nx ny dx dy b1 = Inr b2 \<and>
       (\<forall>i j. 0 \<le> i \<and> i < nx \<and> 0 \<le> j \<and> j < ny \<longrightarrow>
          b2 ! nat (index_c L i j 0)
            = - value_b L * g_0 (real_of_int i * dx) (real_of_int j * dy))))"
proof (intro conjI impI)
  show f0: "f x y 0 = 0" for x y by (simp add: f_def)
  assume h: "0 < nx \<and> 0 < ny \<and> 0 < nz \<and> nx \<le> nx_loc (DD L) \<and> ny \<le> ny_loc (DD L) \<and>
    nx_loc (DD L) * ny_loc (DD L) * nz \<le> int (length b)"
  obtain b1 b2 where r: "rhs_forcing L nx ny nz dx dy dz b = Inr b1"
      "rhs_dirichlet L nx ny dx dy b1 = Inr b2"
    and face: "\<And>i j. 0 \<le> i \<and> i < nx \<and> 0 \<le> j \<and> j < ny \<Longrightarrow>
       b2 ! nat (index_c L i j 0)
         = f (real_of_int i * dx) (real_of_int j * dy) 0
           - value_b L * g_0 (real_of_int i * dx) (real_of_int j * dy)"
    using rhs_build[of nx ny nz L b dx dy dz] h by blast
  show "\<exists>b1 b2. rhs_forcing L nx ny nz dx dy dz b = Inr b1
       \<and> rhs_dirichlet L nx ny dx dy b1 = Inr b2 \<and>
       (\<forall>i j. 0 \<le> i \<and> i < nx \<and> 0 \<le> j \<and> j < ny \<longrightarrow>
          b2 ! nat (index_c L i j 0)
            = - value_b L * g_0 (real_of_int i * dx) (real_of_int j * dy))"
    using r face by (intro exI[of _ b1] exI[of _ b2]) (simp add: f0)
qed

theorem forcing_vanishes_at_z0_witness:
  "f (1 / 3) (1 / 5) 0 = 0 \<and>
   nx_loc (DD (serial_stencil 3 3 3)) = 3 \<and> ny_loc (DD (serial_stencil 3 3 3)) = 3 \<and>
   length (init 27 (new_double 27) 0) = 27 \<and>
   (\<exists>b1 b2.
      rhs_forcing (serial_stencil 3 3 3) 3 3 3 (1 / 2) (1 / 2) (1 / 2)
        (init 27 (new_double 27) 0) = Inr b1 \<and>
      rhs_dirichlet (serial_stencil 3 3 3) 3 3 (1 / 2) (1 / 2) b1 = Inr b2 \<and>
      b2 ! 4 = - value_b (serial_stencil 3 3 3) * g_0 (1 / 2) (1 / 2) \<and>
      b2 ! 4 = 1 / 4)"
proof -
  have h: "(0::int) < 3 \<and> (0::int) < 3 \<and> (0::int) < 3 \<and>
      3 \<le> nx_loc (DD (serial_stencil 3 3 3)) \<and> 3 \<le> ny_loc (DD (serial_stencil 3 3 3)) \<and>
      nx_loc (DD (serial_stencil 3 3 3)) * ny_loc (DD (serial_stencil 3 3 3)) * 3
        \<le> int (length (init 27 (new_double 27) 0))"
    using serial_grid_3(1,2,3) by simp
  have t: "f (1 / 3) (1 / 5) 0 = 0 \<and>
    (\<exists>b1 b2. rhs_forcing (serial_stencil 3 3 3) 3 3 3 (1 / 2) (1 / 2) (1 / 2)
        (init 27 (new_double 27) 0) = Inr b1
       \<and> rhs_dirichlet (serial_stencil 3 3 3) 3 3 (1 / 2) (1 / 2) b1 = Inr b2 \<and>
       (\<forall>i j. 0 \<le> i \<and> i < 3 \<and> 0 \<le> j \<and> j < 3 \<longrightarrow>
          b2 ! nat (index_c (serial_stencil 3 3 3) i j 0)
            = - value_b (serial_stencil 3 3 3)
                * g_0 (real_of_int i * (1 / 2)) (real_of_int j * (1 / 2))))"
    using forcing_vanishes_at_z0
            [where x = "1 / 3" and y = "1 / 5" and nx = 3 and ny = 3 and nz = 3
               and L = "serial_stencil 3 3 3" and b = "init 27 (new_double 27) 0"
               and dx = "1 / 2" and dy = "1 / 2" and dz = "1 / 2"] h
    by blast
  then obtain b1 b2 where r: "rhs_forcing (serial_stencil 3 3 3) 3 3 3 (1 / 2) (1 / 2) (1 / 2)
        (init 27 (new_double 27) 0) = Inr b1"
      "rhs_dirichlet (serial_stencil 3 3 3) 3 3 (1 / 2) (1 / 2) b1 = Inr b2"
    and face: "\<And>i j. 0 \<le> i \<and> i < 3 \<and> 0 \<le> j \<and> j < 3 \<Longrightarrow>
          b2 ! nat (index_c (serial_stencil 3 3 3) i j 0)
            = - value_b (serial_stencil 3 3 3)
                * g_0 (real_of_int i * (1 / 2)) (real_of_int j * (1 / 2))"
    by blast
  have e: "b2 ! 4 = - value_b (serial_stencil 3 3 3) * g_0 (1 / 2) (1 / 2)"
    using face[of 1 1] by (simp add: serial_grid_3)
  then have "b2 ! 4 = 1 / 4"
    by (simp add: serial_stencil_value_b g_0_def)
  then show ?thesis
    using t r e by (simp add: single_process_def length_init)
qed

section \<open>The driver's calls\<close>

text \<open>
  C10: in every run that reaches the solve, \<open>cg_solver\<close> is called once, with the
  tolerance \<open>sqrt(epsilon)\<close> of double precision and at most 500 iterations, whatever the
  command line and the surroundings.
\<close>

theorem cg_solver_parameters:
  "solve_attempted (snd (main E argv))
    \<Longrightarrow> cg_parameters (snd (main E argv)) = [(sqrt epsilon, 500)]"
  unfolding main_def Let_def solve_attempted_def
  by (auto split: option.splits sum.splits prod.splits if_splits
      simp: cg_parameters_append cg_parameters_print_loop print_loop_no_cg_call)

theorem cg_solver_parameters_witness:
  "solve_attempted (snd (main (serial_env 27) [''main_cg_poisson'', ''3''])) \<and>
   cg_parameters (snd (main (serial_env 27) [''main_cg_poisson'', ''3'']))
     = [(sqrt epsilon, 500)]"
  using cg_solver_parameters [of "serial_env 27" "[''main_cg_poisson'', ''3'']"] serial_run(1)
  by simp

text \<open>
  C1: \<open>laplace3d_stencil\<close> throws exactly when some extent is at most 2 (so never when
  all three are at least 3); in a run of \<open>main\<close> on such a grid the solver is never
  called, and when the decomposition was constructed the run ends with the uncaught
  \<open>runtime_error\<close> of the stencil construction, which is its last step.
\<close>

theorem small_grid_configuration_error:
  "((\<exists>msg. laplace3d_stencil nx ny nz = Inl (Runtime_error msg))
      \<longleftrightarrow> nx \<le> 2 \<or> ny \<le> 2 \<or> nz \<le> 2) \<and>
   (isl (laplace3d_stencil nx ny nz) \<longleftrightarrow> nx \<le> 2 \<or> ny \<le> 2 \<or> nz \<le> 2) \<and>
   (parse_args argv = Some (nx, ny, nz) \<and> (nx \<le> 2 \<or> ny \<le> 2 \<or> nz \<le> 2) \<longrightarrow>
      \<not> solve_attempted (snd (main E argv)) \<and>
      (\<forall>D. decomp3d_ctor E nx ny nz = Inr D \<longrightarrow>
         fst (main E argv) = Aborted (Runtime_error
           ''need at least two grid points in each direction to implement boundary conditions.'')
         \<and> last (snd (main E argv)) = Call_laplace3d_stencil nx ny nz))"
proof (intro conjI impI allI)
  show "(\<exists>msg. laplace3d_stencil nx ny nz = Inl (Runtime_error msg))
      \<longleftrightarrow> nx \<le> 2 \<or> ny \<le> 2 \<or> nz \<le> 2"
    by (simp add: laplace3d_stencil_def Let_def)
  show "isl (laplace3d_stencil nx ny nz) \<longleftrightarrow> nx \<le> 2 \<or> ny \<le> 2 \<or> nz \<le> 2"
    by (simp add: laplace3d_stencil_def Let_def)
next
  assume a: "parse_args argv = Some (nx, ny, nz) \<and> (nx \<le> 2 \<or> ny \<le> 2 \<or> nz \<le> 2)"
  then have st: "laplace3d_stencil nx ny nz = Inl (Runtime_error
       ''need at least two grid points in each direction to implement boundary conditions.'')"
    by (simp add: laplace3d_stencil_def)
  show "\<not> solve_attempted (snd (main E argv))"
    unfolding main_def Let_def solve_attempted_def
    using a st by (auto split: sum.splits simp: print_loop_no_cg_call)
  fix D assume "decomp3d_ctor E nx ny nz = Inr D"
  then show "fst (main E argv) = Aborted (Runtime_error
       ''need at least two grid points in each direction to implement boundary conditions.'')"
    and "last (snd (main E argv)) = Call_laplace3d_stencil nx ny nz"
    unfolding main_def Let_def using a st by simp_all
qed

theorem small_grid_configuration_error_witness:
  "parse_args [''main_cg_poisson'', ''2''] = Some (2, 2, 2) \<and>
   isl (laplace3d_stencil 2 2 2) \<and>
   \<not> isl (laplace3d_stencil 3 3 3) \<and>
   \<not> solve_attempted (snd (main (serial_env 8) [''main_cg_poisson'', ''2''])) \<and>
   fst (main (serial_env 8) [''main_cg_poisson'', ''2'']) = Aborted (Runtime_error
     ''need at least two grid points in each direction to implement boundary conditions.'')"
proof -
  have dd: "decomp3d_ctor (serial_env 8) 2 2 2 = Inr (single_process 2 2 2)"
    by (simp add: serial_env_def)
  show ?thesis
    using small_grid_configuration_error
            [of 2 2 2 "[''main_cg_poisson'', ''2'']" "serial_env 8"]
          small_grid_configuration_error
            [of 3 3 3 "[''main_cg_poisson'', ''2'']" "serial_env 8"]
          parse_2 dd
    by simp
qed

text \<open>
  C7: in every run of \<open>main\<close> nothing follows \<open>MPI_Finalize\<close>: no MPI call, no call into
  a component that communicates, no output. A run in which \<open>main\<close> returns returns 0,
  and \<open>MPI_Finalize\<close> is its last step.
\<close>

theorem finalize_last_mpi_call:
  "finalize_is_last (snd (main E argv)) \<and>
   (fst (main E argv) = Returned r \<longrightarrow>
      r = 0 \<and> snd (main E argv) \<noteq> [] \<and> last (snd (main E argv)) = MPI_Finalize)"
proof (intro conjI impI)
  show "finalize_is_last (snd (main E argv))"
    unfolding main_def Let_def
    by (auto split: option.splits sum.splits prod.splits
        simp: finalize_is_last_append print_loop_no_finalize)
  assume "fst (main E argv) = Returned r"
  then show "r = 0" "snd (main E argv) \<noteq> []" "last (snd (main E argv)) = MPI_Finalize"
    unfolding main_def Let_def
    by (auto split: option.splits sum.splits prod.splits)
qed

theorem finalize_last_mpi_call_witness:
  "fst (main (serial_env 27) [''main_cg_poisson'', ''3'']) = Returned 0 \<and>
   finalize_is_last (snd (main (serial_env 27) [''main_cg_poisson'', ''3''])) \<and>
   last (snd (main (serial_env 27) [''main_cg_poisson'', ''3''])) = MPI_Finalize"
  using finalize_last_mpi_call [of "serial_env 27" "[''main_cg_poisson'', ''3'']" 0]
    serial_run(2)
  by simp

text \<open>
  C9: without arguments the grid is \<open>128 \<times> 128 \<times> 128\<close>; with one argument \<open>nx\<close> it is
  \<open>nx \<times> nx \<times> nx\<close>; with three arguments it is the triple given, a negative \<open>ny\<close> or \<open>nz\<close>
  being replaced by \<open>nx\<close>; with any other number of arguments the run prints the error
  and exits with \<open>-1\<close> before a decomposition is constructed. In the other runs the
  decomposition is constructed for that grid, right after \<open>MPI_Init\<close>. The values are
  those that \<open>atoi\<close> returns, which are always values of a 32-bit \<open>int\<close>.
\<close>

theorem command_line_grid:
  "parse_args [prog] = Some (128, 128, 128) \<and>
   parse_args [prog, a] = Some (atoi a, atoi a, atoi a) \<and>
   parse_args [prog, a, b, c]
     = Some (atoi a, if atoi b < 0 then atoi a else atoi b,
                     if atoi c < 0 then atoi a else atoi c) \<and>
   - 2147483648 \<le> atoi a \<and> atoi a \<le> 2147483647 \<and>
   (length argv \<noteq> 1 \<and> length argv \<noteq> 2 \<and> length argv \<noteq> 4 \<longrightarrow>
      main E argv
        = (Exited (- 1), [MPI_Init, Cerr ''Invalid number of arguments (should be 0, 1 or 3)''])
      \<and> \<not> list_ex is_decomp_construction (snd (main E argv))) \<and>
   (parse_args argv = Some (nx, ny, nz) \<longrightarrow>
      take 2 (snd (main E argv)) = [MPI_Init, Construct_decomp3d nx ny nz])"
proof (intro conjI impI)
  show "parse_args [prog] = Some (128, 128, 128)"
    by (simp add: parse_args_def)
  show "parse_args [prog, a] = Some (atoi a, atoi a, atoi a)"
    by (simp add: parse_args_def)
  show "parse_args [prog, a, b, c]
     = Some (atoi a, if atoi b < 0 then atoi a else atoi b,
                     if atoi c < 0 then atoi a else atoi c)"
    by (simp add: parse_args_def)
  show "- 2147483648 \<le> atoi a" "atoi a \<le> 2147483647"
    using atoi_range[of a] by simp_all
next
  assume n: "length argv \<noteq> 1 \<and> length argv \<noteq> 2 \<and> length argv \<noteq> 4"
  then have "parse_args argv = None" by (simp add: parse_args_def)
  then show m: "main E argv
        = (Exited (- 1), [MPI_Init, Cerr ''Invalid number of arguments (should be 0, 1 or 3)''])"
    by (simp add: main_def)
  show "\<not> list_ex is_decomp_construction (snd (main E argv))"
    by (simp add: m)
next
  assume "parse_args argv = Some (nx, ny, nz)"
  then show "take 2 (snd (main E argv)) = [MPI_Init, Construct_decomp3d nx ny nz]"
    unfolding main_def Let_def
    by (auto split: sum.splits)
qed

theorem command_line_grid_witness:
  "parse_args [''main_cg_poisson''] = Some (128, 128, 128) \<and>
   parse_args [''main_cg_poisson'', ''16''] = Some (16, 16, 16) \<and>
   parse_args [''main_cg_poisson'', ''5'', ''-3'', ''7''] = Some (5, 5, 7) \<and>
   parse_args [''main_cg_poisson'', ''5'', ''6'', ''-1''] = Some (5, 6, 5) \<and>
   parse_args [''main_cg_poisson'', ''5'', ''2147483648'', ''7''] = Some (5, 5, 7) \<and>
   parse_args [''main_cg_poisson'', ''5'', ''-2147483649'', ''7'']
     = Some (5, 2147483647, 7) \<and>
   atoi ''2147483648'' = - 2147483648 \<and>
   length [''main_cg_poisson'', ''5'', ''6''] \<noteq> 1 \<and>
   length [''main_cg_poisson'', ''5'', ''6''] \<noteq> 2 \<and>
   length [''main_cg_poisson'', ''5'', ''6''] \<noteq> 4 \<and>
   main (serial_env 27) [''main_cg_poisson'', ''5'', ''6'']
     = (Exited (- 1), [MPI_Init, Cerr ''Invalid number of arguments (should be 0, 1 or 3)'']) \<and>
   take 2 (snd (main (serial_env 27) [''main_cg_poisson'', ''5'', ''-3'', ''7'']))
     = [MPI_Init, Construct_decomp3d 5 5 7]"
proof -
  have p: "parse_args [''main_cg_poisson'', ''5'', ''-3'', ''7''] = Some (5, 5, 7)"
    by (simp add: parse_args_def atoi_simps)
  have a: "atoi ''16'' = 16" "atoi ''5'' = 5" "atoi ''6'' = 6" "atoi ''7'' = 7"
    "atoi ''-1'' = - 1" "atoi ''-3'' = - 3"
    "atoi ''2147483648'' = - 2147483648" "atoi ''-2147483649'' = 2147483647"
    by (simp_all add: atoi_simps)
  show ?thesis
    using command_line_grid
            [where prog = "''main_cg_poisson''" and a = "''16''" and b = "''6''" and c = "''-1''"
               and argv = "[''main_cg_poisson'', ''5'', ''6'']" and E = "serial_env 27"
               and nx = 5 and ny = 5 and nz = 7]
          command_line_grid
            [where prog = "''main_cg_poisson''" and a = "''5''" and b = "''-3''" and c = "''7''"
               and argv = "[''main_cg_poisson'', ''5'', ''-3'', ''7'']" and E = "serial_env 27"
               and nx = 5 and ny = 5 and nz = 7]
          command_line_grid
            [where prog = "''main_cg_poisson''" and a = "''5''" and b = "''6''" and c = "''-1''"
               and argv = "[''main_cg_poisson'', ''5'', ''6'']" and E = "serial_env 27"
               and nx = 5 and ny = 5 and nz = 7]
          command_line_grid
            [where prog = "''main_cg_poisson''" and a = "''5''" and b = "''2147483648''"
               and c = "''7''"
               and argv = "[''main_cg_poisson'', ''5'', ''6'']" and E = "serial_env 27"
               and nx = 5 and ny = 5 and nz = 7]
          command_line_grid
            [where prog = "''main_cg_poisson''" and a = "''5''" and b = "''-2147483649''"
               and c = "''7''"
               and argv = "[''main_cg_poisson'', ''5'', ''6'']" and E = "serial_env 27"
               and nx = 5 and ny = 5 and nz = 7]
          p a
    by simp
qed

end
